theory Spec2Isabelle
  imports Complex_Main
begin

section \<open>Exam timer, deadline variant (src/unnamed/part_001)\<close>

text \<open>
  The class \<open>ExamTimer\<close> as a record. Times are milliseconds, all integral in the
  source (\<open>Date.now()\<close> and integer constants), so they are \<open>int\<close>. \<open>endTime\<close> is
  \<open>null\<close> until the timer is started. \<open>warningsShown\<close> is a JS \<open>Set\<close>: a list in
  insertion order that never holds a value twice. \<open>intervalId\<close> says whether the
  one-second interval is armed, \<open>listening\<close> whether the visibility and focus listeners
  are registered. \<open>localStorage\<close> is the entry under \<open>storageKey\<close>. The three callbacks
  of the constructor's options are recorded, in call order, in \<open>calls\<close>.
  Each handler reads the wall clock \<open>Date.now()\<close>; it is the argument \<open>now\<close>
  (one handler runs to completion at one clock value).
\<close>

datatype callback = OnTick int string | OnWarning int | OnExpire

record savedState =
  saved_endTime :: "int option"
  saved_warningsShown :: "int list"
  saved_duration :: int

record ExamTimer =
  duration :: int
  remaining :: int
  warningTimes :: "int list"
  warningsShown :: "int list"
  intervalId :: bool
  endTime :: "int option"
  isRunning :: bool
  listening :: bool
  localStorage :: "savedState option"
  calls :: "callback list"

text \<open>\<open>options.duration || 2 * 60 * 60 * 1000\<close>: a missing or zero duration is the default.\<close>

definition ExamTimer_new :: "int option \<Rightarrow> ExamTimer" where
  "ExamTimer_new optDuration =
     (let d = (case optDuration of None \<Rightarrow> 2 * 60 * 60 * 1000
               | Some v \<Rightarrow> if v = 0 then 2 * 60 * 60 * 1000 else v)
      in \<lparr> duration = d, remaining = d,
           warningTimes = [30 * 60 * 1000, 15 * 60 * 1000, 5 * 60 * 1000],
           warningsShown = [], intervalId = False, endTime = None,
           isRunning = False, listening = False, localStorage = None, calls = [] \<rparr>)"

definition emit :: "callback \<Rightarrow> ExamTimer \<Rightarrow> ExamTimer" where
  "emit c t = t\<lparr> calls := calls t @ [c] \<rparr>"

definition getTimerClass :: "ExamTimer \<Rightarrow> string" where
  "getTimerClass t =
     (if remaining t > 30 * 60 * 1000 then ''safe''
      else if remaining t > 15 * 60 * 1000 then ''warning''
      else if remaining t > 5 * 60 * 1000 then ''warning''
      else ''danger'')"

definition saveState :: "ExamTimer \<Rightarrow> ExamTimer" where
  "saveState t = t\<lparr> localStorage :=
      Some \<lparr> saved_endTime = endTime t, saved_warningsShown = warningsShown t,
             saved_duration = duration t \<rparr> \<rparr>"

definition clearState :: "ExamTimer \<Rightarrow> ExamTimer" where
  "clearState t = t\<lparr> localStorage := None \<rparr>"

text \<open>\<open>if (this.endTime)\<close>: \<open>null\<close> and \<open>0\<close> are falsy.\<close>

definition updateRemaining :: "int \<Rightarrow> ExamTimer \<Rightarrow> ExamTimer" where
  "updateRemaining now t =
     (case endTime t of
        None \<Rightarrow> t
      | Some e \<Rightarrow> if e = 0 then t else t\<lparr> remaining := max 0 (e - now) \<rparr>)"

definition stop :: "ExamTimer \<Rightarrow> ExamTimer" where
  "stop t = t\<lparr> intervalId := False, isRunning := False, listening := False \<rparr>"

definition start :: "int \<Rightarrow> ExamTimer \<Rightarrow> ExamTimer" where
  "start now t =
     (if isRunning t then t
      else
        let t1 = t\<lparr> isRunning := True, endTime := Some (now + remaining t) \<rparr>;
            t2 = saveState t1;
            t3 = updateRemaining now t2;
            t4 = emit (OnTick (remaining t3) (getTimerClass t3)) t3
        in t4\<lparr> intervalId := True, listening := True \<rparr>)"

text \<open>The body of the \<open>warningTimes.forEach\<close> callback of \<open>tick\<close>.\<close>

definition checkWarning :: "int \<Rightarrow> ExamTimer \<Rightarrow> ExamTimer" where
  "checkWarning time t =
     (if remaining t \<le> time \<and> remaining t > time - 1500 \<and> time \<notin> set (warningsShown t)
      then saveState (emit (OnWarning (time div 60000))
                        (t\<lparr> warningsShown := warningsShown t @ [time] \<rparr>))
      else t)"

definition tick :: "int \<Rightarrow> ExamTimer \<Rightarrow> ExamTimer" where
  "tick now t =
     (let t1 = updateRemaining now t;
          t2 = fold checkWarning (warningTimes t1) t1;
          t3 = emit (OnTick (remaining t2) (getTimerClass t2)) t2;
          t4 = (if (remaining t3 div 1000) mod 10 = 0 then saveState t3 else t3)
      in if remaining t4 \<le> 0
         then emit OnExpire (clearState ((stop t4)\<lparr> remaining := 0 \<rparr>))
         else t4)"

definition handleVisibilityChange :: "int \<Rightarrow> ExamTimer \<Rightarrow> ExamTimer" where
  "handleVisibilityChange now t =
     (if isRunning t then
        let t1 = updateRemaining now t;
            t2 = emit (OnTick (remaining t1) (getTimerClass t1)) t1
        in if remaining t2 \<le> 0
           then emit OnExpire ((stop t2)\<lparr> remaining := 0 \<rparr>)
           else t2
      else t)"






text \<open>\<open>Set.add\<close>: a value already in the set is not added again.\<close>

definition setAdd :: "int \<Rightarrow> int list \<Rightarrow> int list" where
  "setAdd x xs = (if x \<in> set xs then xs else xs @ [x])"







text \<open>
  The arguments of the \<open>onWarning\<close> calls made so far, and the remaining times handed
  to \<open>onTick\<close> so far, both in call order.
\<close>

fun warned :: "callback list \<Rightarrow> int list" where
  "warned [] = []"
| "warned (OnWarning m # cs) = m # warned cs"
| "warned (_ # cs) = warned cs"

fun reported :: "callback list \<Rightarrow> int list" where
  "reported [] = []"
| "reported (OnTick r _ # cs) = r # reported cs"
| "reported (_ # cs) = reported cs"




section \<open>Exam timer, counter variant (src/unnamed/part_000)\<close>

text \<open>
  The second \<open>ExamTimer\<close> class of the repository. Its names carry the suffix \<open>_v0\<close>.
  It has no \<open>endTime\<close>, no persistence and no visibility handler.
\<close>

record ExamTimer_v0 =
  duration_v0 :: int
  remaining_v0 :: int
  warningTimes_v0 :: "int list"
  warningsShown_v0 :: "int list"
  intervalId_v0 :: bool
  startTime_v0 :: "int option"
  pausedTime_v0 :: "int option"
  isRunning_v0 :: bool
  calls_v0 :: "callback list"

definition ExamTimer_new_v0 :: "int option \<Rightarrow> ExamTimer_v0" where
  "ExamTimer_new_v0 optDuration =
     (let d = (case optDuration of None \<Rightarrow> 2 * 60 * 60 * 1000
               | Some v \<Rightarrow> if v = 0 then 2 * 60 * 60 * 1000 else v)
      in \<lparr> duration_v0 = d, remaining_v0 = d,
           warningTimes_v0 = [30 * 60 * 1000, 15 * 60 * 1000, 5 * 60 * 1000],
           warningsShown_v0 = [], intervalId_v0 = False, startTime_v0 = None,
           pausedTime_v0 = None, isRunning_v0 = False, calls_v0 = [] \<rparr>)"

definition emit_v0 :: "callback \<Rightarrow> ExamTimer_v0 \<Rightarrow> ExamTimer_v0" where
  "emit_v0 c t = t\<lparr> calls_v0 := calls_v0 t @ [c] \<rparr>"

definition getTimerClass_v0 :: "ExamTimer_v0 \<Rightarrow> string" where
  "getTimerClass_v0 t =
     (if remaining_v0 t > 30 * 60 * 1000 then ''safe''
      else if remaining_v0 t > 15 * 60 * 1000 then ''warning''
      else if remaining_v0 t > 5 * 60 * 1000 then ''warning''
      else ''danger'')"

definition start_v0 :: "int \<Rightarrow> ExamTimer_v0 \<Rightarrow> ExamTimer_v0" where
  "start_v0 now t =
     (if isRunning_v0 t then t
      else
        let t1 = t\<lparr> isRunning_v0 := True, startTime_v0 := Some now \<rparr>;
            t2 = emit_v0 (OnTick (remaining_v0 t1) (getTimerClass_v0 t1)) t1
        in t2\<lparr> intervalId_v0 := True \<rparr>)"

definition stop_v0 :: "ExamTimer_v0 \<Rightarrow> ExamTimer_v0" where
  "stop_v0 t = t\<lparr> intervalId_v0 := False, isRunning_v0 := False \<rparr>"

definition checkWarning_v0 :: "int \<Rightarrow> ExamTimer_v0 \<Rightarrow> ExamTimer_v0" where
  "checkWarning_v0 time t =
     (if remaining_v0 t \<le> time \<and> remaining_v0 t > time - 1000
         \<and> time \<notin> set (warningsShown_v0 t)
      then emit_v0 (OnWarning (time div 60000))
             (t\<lparr> warningsShown_v0 := warningsShown_v0 t @ [time] \<rparr>)
      else t)"

text \<open>\<open>tick\<close> reads no clock: the argument \<open>now\<close> is the wall clock it does not look at.\<close>

definition tick_v0 :: "int \<Rightarrow> ExamTimer_v0 \<Rightarrow> ExamTimer_v0" where
  "tick_v0 now t =
     (let t1 = t\<lparr> remaining_v0 := remaining_v0 t - 1000 \<rparr>;
          t2 = fold checkWarning_v0 (warningTimes_v0 t1) t1;
          t3 = emit_v0 (OnTick (remaining_v0 t2) (getTimerClass_v0 t2)) t2
      in if remaining_v0 t3 \<le> 0
         then emit_v0 OnExpire ((stop_v0 t3)\<lparr> remaining_v0 := 0 \<rparr>)
         else t3)"










section \<open>Drawing canvas (src/js/canvas.js)\<close>

subsection \<open>Elements\<close>

text \<open>
  Coordinates are JS numbers, taken as reals (rounding is not modelled). An element is a
  JS object with a \<open>type\<close> discriminant; the constructors carry the fields of the object
  literals that create them, in the order of the source. Sequence numbers are integers,
  timestamps are \<open>Date.now()\<close>.

  \<open>elements.indexOf(element)\<close> compares object references, so every element carries the
  reference of the object it is: two elements with equal fields are still two objects.
\<close>

type_synonym point = "real \<times> real"

datatype element =
    Line string real "point list" int
      \<comment> \<open>color, width, points, timestamp\<close>
  | Polygon string "point list" int
      \<comment> \<open>color, points, timestamp\<close>
  | Marker string real real real int
      \<comment> \<open>color, x, y, size, timestamp\<close>
  | Text string real real string real int
      \<comment> \<open>color, x, y, text, fontSize, timestamp\<close>
  | Termination string real real string int bool int
      \<comment> \<open>color, x, y, label, number, isFirstPoint, timestamp\<close>
  | TerminationLine string real real real string int real int
      \<comment> \<open>color, x1, x2, y, label, number, lineWidth, timestamp\<close>
  | Surface string string real "point list" int
      \<comment> \<open>surfaceType, color, width, points, timestamp\<close>
  | SystemTract string string "point list" int
      \<comment> \<open>tractType, color, points, timestamp\<close>

datatype obj = Obj (ref: nat) (val: element)

fun el_type :: "element \<Rightarrow> string" where
  "el_type (Line _ _ _ _) = ''line''"
| "el_type (Polygon _ _ _) = ''polygon''"
| "el_type (Marker _ _ _ _ _) = ''marker''"
| "el_type (Text _ _ _ _ _ _) = ''text''"
| "el_type (Termination _ _ _ _ _ _ _) = ''termination''"
| "el_type (TerminationLine _ _ _ _ _ _ _ _) = ''terminationLine''"
| "el_type (Surface _ _ _ _ _) = ''surface''"
| "el_type (SystemTract _ _ _ _) = ''systemTract''"

text \<open>The template literal \<open>`${num}`\<close>: an integer in decimal.\<close>

fun digits :: "nat \<Rightarrow> string" where
  "digits n = (if n < 10 then [''0123456789'' ! n]
               else digits (n div 10) @ [''0123456789'' ! (n mod 10)])"

definition numStr :: "int \<Rightarrow> string" where
  "numStr i = (if i < 0 then ''-'' @ digits (nat (- i)) else digits (nat i))"

subsection \<open>Arrays\<close>

text \<open>
  \<open>Array.prototype.indexOf\<close> on an array of objects (first index holding the same
  reference, else -1) and \<open>Array.prototype.splice(start, deleteCount, ...items)\<close>, which
  clamps \<open>start\<close> to the array and counts a negative \<open>start\<close> from the end.
  \<open>push\<close> appends at the end, \<open>pop\<close> takes the last entry, \<open>shift\<close> the first.
\<close>

fun indexOf :: "obj list \<Rightarrow> obj \<Rightarrow> int" where
  "indexOf [] e = - 1"
| "indexOf (x # xs) e =
     (if ref x = ref e then 0
      else let i = indexOf xs e in if i < 0 then - 1 else i + 1)"

definition splice :: "'a list \<Rightarrow> int \<Rightarrow> nat \<Rightarrow> 'a list \<Rightarrow> 'a list" where
  "splice xs startIndex deleteCount items =
     (let n = int (length xs);
          k = nat (if startIndex < 0 then max 0 (n + startIndex) else min startIndex n)
      in take k xs @ items @ drop (k + deleteCount) xs)"

subsection \<open>The shared numbering registry\<close>

text \<open>
  \<open>terminationCounter\<close> is one object shared by both canvases. The orchestrator creates
  it as \<open>{ count: 0 }\<close>, so \<open>availableNumbers\<close> may be undefined (\<open>None\<close>). The methods
  that touch it take it and give it back.
\<close>

record terminationCounter =
  count :: int
  availableNumbers :: "int list option"

definition getNextTerminationNumber :: "terminationCounter \<Rightarrow> int \<times> terminationCounter" where
  "getNextTerminationNumber c =
     (let avail = (case availableNumbers c of None \<Rightarrow> [] | Some a \<Rightarrow> a)
      in if length avail > 0
         then (let sorted = sort avail
               in (hd sorted, c\<lparr> availableNumbers := Some (tl sorted) \<rparr>))
         else (count c + 1, c\<lparr> count := count c + 1, availableNumbers := Some avail \<rparr>))"

definition recycleTerminationNumber :: "int \<Rightarrow> terminationCounter \<Rightarrow> terminationCounter" where
  "recycleTerminationNumber num c =
     (let avail = (case availableNumbers c of None \<Rightarrow> [] | Some a \<Rightarrow> a)
      in c\<lparr> availableNumbers := Some (if num \<in> set avail then avail else avail @ [num]) \<rparr>)"

subsection \<open>The canvas object\<close>

text \<open>
  \<open>terminationState\<close> is only ever assigned two shapes: the idle object
  \<open>{waitingForSecondClick: false, firstPoint: null, currentNumber: null, color: null}\<close>
  and \<open>{waitingForSecondClick: true, firstPoint: {x, y}, currentNumber: num, color}\<close>.
  Before the first click the field is undefined, which every reader treats as idle
  (\<open>initTerminationState\<close> replaces it by the idle object, \<open>cancelTermination\<close> tests
  \<open>this.terminationState && ...\<close>).
\<close>

datatype terminationState =
    Idle
  | WaitingForSecondClick point int string
      \<comment> \<open>firstPoint, currentNumber, color\<close>

datatype action = Add obj | Remove obj int
  \<comment> \<open>\<open>{action: 'add', element}\<close> and \<open>{action: 'remove', element, index}\<close>\<close>

record DrawingCanvas =
  canvasWidth :: real
  canvasHeight :: real
  isDrawing :: bool
  currentTool :: string
  currentColor :: string
  lineWidth :: real
  points :: "point list"
  elements :: "obj list"
  undoStack :: "action list"
  redoStack :: "action list"
  activeElement :: "element option"
  hoverElement :: "obj option"
  textInput :: bool
  terminationState :: terminationState

definition maxHistory :: nat where
  "maxHistory = 50"

text \<open>
  The constructor's drawing state, for a canvas of the given pixel size. Redrawing, the
  DOM hint and the \<open>onStateChange\<close> and \<open>onElementAdd\<close> callbacks (auto-save and a log
  line) change nothing of this state and are left out of the methods below.
\<close>

definition DrawingCanvas_new :: "real \<Rightarrow> real \<Rightarrow> DrawingCanvas" where
  "DrawingCanvas_new w h =
     \<lparr> canvasWidth = w, canvasHeight = h, isDrawing = False, currentTool = ''line'',
       currentColor = ''#FF0000'', lineWidth = 3, points = [], elements = [],
       undoStack = [], redoStack = [], activeElement = None, hoverElement = None,
       textInput = False, terminationState = Idle \<rparr>"

definition addElement :: "obj \<Rightarrow> DrawingCanvas \<Rightarrow> DrawingCanvas" where
  "addElement element s =
     (let s1 = s\<lparr> elements := elements s @ [element], redoStack := [] \<rparr>;
          s2 = (if length (undoStack s1) \<ge> maxHistory
                then s1\<lparr> undoStack := tl (undoStack s1) \<rparr> else s1)
      in s2\<lparr> undoStack := undoStack s2 @ [Add element] \<rparr>)"

definition undo ::
  "DrawingCanvas \<Rightarrow> terminationCounter \<Rightarrow> bool \<times> DrawingCanvas \<times> terminationCounter" where
  "undo s c =
     (if length (undoStack s) = 0 then (False, s, c)
      else
        let action = last (undoStack s);
            s1 = s\<lparr> undoStack := butlast (undoStack s) \<rparr>
        in case action of
             Add element \<Rightarrow>
               let index = indexOf (elements s1) element;
                   s2 = (if index > - 1
                         then s1\<lparr> elements := splice (elements s1) index 1 [] \<rparr> else s1);
                   c2 = (case val element of
                           Termination _ _ _ _ number _ _ \<Rightarrow> recycleTerminationNumber number c
                         | _ \<Rightarrow> c)
               in (True, s2\<lparr> redoStack := redoStack s2 @ [action] \<rparr>, c2)
           | Remove element index \<Rightarrow>
               (True, s1\<lparr> elements := splice (elements s1) index 0 [element],
                          redoStack := redoStack s1 @ [action] \<rparr>, c))"

definition redo :: "DrawingCanvas \<Rightarrow> bool \<times> DrawingCanvas" where
  "redo s =
     (if length (redoStack s) = 0 then (False, s)
      else
        let action = last (redoStack s);
            s1 = s\<lparr> redoStack := butlast (redoStack s) \<rparr>
        in case action of
             Add element \<Rightarrow>
               (True, s1\<lparr> elements := elements s1 @ [element],
                          undoStack := undoStack s1 @ [action] \<rparr>)
           | Remove element _ \<Rightarrow>
               let index = indexOf (elements s1) element;
                   s2 = (if index > - 1
                         then s1\<lparr> elements := splice (elements s1) index 1 [] \<rparr> else s1)
               in (True, s2\<lparr> undoStack := undoStack s2 @ [action] \<rparr>))"

definition clear :: "DrawingCanvas \<Rightarrow> DrawingCanvas" where
  "clear s = s\<lparr> elements := [], undoStack := [], redoStack := [], points := [],
               isDrawing := False, activeElement := None \<rparr>"

text \<open>
  Consecutive calls: \<open>addAll\<close> calls \<open>addElement\<close> once per element of the list, in
  order; \<open>undoN\<close> and \<open>redoN\<close> call \<open>undo\<close> and \<open>redo\<close> the given number of times and
  collect what each call returned.
\<close>

definition addAll :: "obj list \<Rightarrow> DrawingCanvas \<Rightarrow> DrawingCanvas" where
  "addAll es s = fold addElement es s"

fun undoN ::
  "nat \<Rightarrow> DrawingCanvas \<Rightarrow> terminationCounter
     \<Rightarrow> bool list \<times> DrawingCanvas \<times> terminationCounter" where
  "undoN 0 s c = ([], s, c)"
| "undoN (Suc n) s c =
     (case undo s c of (b, s1, c1) \<Rightarrow>
        (case undoN n s1 c1 of (bs, s2, c2) \<Rightarrow> (b # bs, s2, c2)))"

fun redoN :: "nat \<Rightarrow> DrawingCanvas \<Rightarrow> bool list \<times> DrawingCanvas" where
  "redoN 0 s = ([], s)"
| "redoN (Suc n) s =
     (case redo s of (b, s1) \<Rightarrow>
        (case redoN n s1 of (bs, s2) \<Rightarrow> (b # bs, s2)))"

subsection \<open>Hit testing and the eraser\<close>

definition hypot :: "real \<Rightarrow> real \<Rightarrow> real" where
  "hypot a b = sqrt (a * a + b * b)"

definition pointToLineDistance :: "point \<Rightarrow> point \<Rightarrow> point \<Rightarrow> real" where
  "pointToLineDistance p lineStart lineEnd =
     (let A = fst p - fst lineStart; B = snd p - snd lineStart;
          C = fst lineEnd - fst lineStart; D = snd lineEnd - snd lineStart;
          dot = A * C + B * D; lenSq = C * C + D * D;
          param = (if lenSq \<noteq> 0 then dot / lenSq else - 1);
          xx = (if param < 0 then fst lineStart
                else if param > 1 then fst lineEnd else fst lineStart + param * C);
          yy = (if param < 0 then snd lineStart
                else if param > 1 then snd lineEnd else snd lineStart + param * D)
      in hypot (fst p - xx) (snd p - yy))"

fun isPointNearLine :: "point \<Rightarrow> point list \<Rightarrow> real \<Rightarrow> bool" where
  "isPointNearLine pos (p # q # ps) threshold =
     (if pointToLineDistance pos p q < threshold then True
      else isPointNearLine pos (q # ps) threshold)"
| "isPointNearLine pos _ threshold = False"

text \<open>
  The ray-casting loop \<open>for (i = 0, j = length - 1; i < length; j = i++)\<close>: \<open>pj\<close> is the
  vertex before the current one, at first the last vertex.
\<close>

fun crossings :: "point \<Rightarrow> point \<Rightarrow> point list \<Rightarrow> bool \<Rightarrow> bool" where
  "crossings pos pj [] inside = inside"
| "crossings pos pj (p # rest) inside =
     crossings pos p rest
       (if ((snd p > snd pos) \<noteq> (snd pj > snd pos)) \<and>
           fst pos < (fst pj - fst p) * (snd pos - snd p) / (snd pj - snd p) + fst p
        then \<not> inside else inside)"

definition isPointInPolygon :: "point \<Rightarrow> point list \<Rightarrow> bool" where
  "isPointInPolygon pos pts = (if pts = [] then False else crossings pos (last pts) pts False)"

fun isPointInElement :: "point \<Rightarrow> element \<Rightarrow> bool" where
  "isPointInElement pos (Line _ _ pts _) = isPointNearLine pos pts 10"
| "isPointInElement pos (Polygon _ pts _) = isPointInPolygon pos pts"
| "isPointInElement pos (Marker _ x y markerSize _) =
     (hypot (fst pos - x) (snd pos - y) < markerSize + 5)"
| "isPointInElement pos (Text _ x y text fontSize _) =
     (let textWidth = real (length text) * 8; textHeight = fontSize
      in fst pos \<ge> x \<and> fst pos \<le> x + textWidth \<and>
         snd pos \<ge> y - textHeight \<and> snd pos \<le> y)"
| "isPointInElement pos (Termination _ x y _ _ _ _) = (hypot (fst pos - x) (snd pos - y) < 15)"
| "isPointInElement pos (TerminationLine _ x1 x2 y _ _ _ _) =
     (\<bar>snd pos - y\<bar> < 10 \<and> fst pos \<ge> x1 \<and> fst pos \<le> x2)"
| "isPointInElement pos (Surface _ _ _ pts _) = isPointNearLine pos pts 10"
| "isPointInElement pos (SystemTract _ _ pts _) = isPointInPolygon pos pts"

definition findElementAt :: "point \<Rightarrow> DrawingCanvas \<Rightarrow> obj option" where
  "findElementAt pos s = find (\<lambda>e. isPointInElement pos (val e)) (rev (elements s))"

definition handleEraser :: "point \<Rightarrow> DrawingCanvas \<Rightarrow> DrawingCanvas" where
  "handleEraser pos s =
     (case findElementAt pos s of
        None \<Rightarrow> s
      | Some element \<Rightarrow>
          let index = indexOf (elements s) element
          in if index > - 1
             then s\<lparr> redoStack := [],
                     undoStack := undoStack s @ [Remove element index],
                     elements := splice (elements s) index 1 [],
                     hoverElement := None \<rparr>
             else s)"

subsection \<open>The termination tool\<close>

text \<open>The payload of the \<open>onTerminationPlaced\<close> callback.\<close>

record termData =
  td_x1 :: real
  td_x2 :: real
  td_y1 :: real
  td_y2 :: real
  td_label :: string
  td_number :: int
  td_color :: string
  td_canvasWidth :: real
  td_canvasHeight :: real

text \<open>
  \<open>placeTermination\<close> creates one element object per click; \<open>r\<close> is the reference of that
  new object and \<open>now\<close> the clock. The third component of the result is the payload
  handed to \<open>onTerminationPlaced\<close> (second click only). The callback is run by the
  caller below: it touches the other canvas only.
\<close>

definition placeTermination ::
  "point \<Rightarrow> int \<Rightarrow> nat \<Rightarrow> DrawingCanvas \<Rightarrow> terminationCounter
     \<Rightarrow> DrawingCanvas \<times> terminationCounter \<times> termData option" where
  "placeTermination pos now r s c =
     (case terminationState s of
        Idle \<Rightarrow>
          let (num, c1) = getNextTerminationNumber c;
              s1 = s\<lparr> terminationState :=
                        WaitingForSecondClick (fst pos, snd pos) num (currentColor s) \<rparr>;
              element = Obj r (Termination (currentColor s) (fst pos) (snd pos)
                                 (numStr num) num True now)
          in (addElement element s1, c1, None)
      | WaitingForSecondClick firstPoint num color \<Rightarrow>
          let element = Obj r (Termination color (fst pos) (snd pos) (numStr num) num False now);
              s1 = addElement element s;
              x1 = min (fst firstPoint) (fst pos);
              x2 = max (fst firstPoint) (fst pos);
              y1 = (if fst firstPoint < fst pos then snd firstPoint else snd pos);
              y2 = (if fst firstPoint < fst pos then snd pos else snd firstPoint);
              payload = \<lparr> td_x1 = x1, td_x2 = x2, td_y1 = y1, td_y2 = y2,
                          td_label = numStr num @ ''-'' @ numStr num, td_number = num,
                          td_color = color, td_canvasWidth = canvasWidth s,
                          td_canvasHeight = canvasHeight s \<rparr>
          in (s1\<lparr> terminationState := Idle \<rparr>, c, Some payload))"

definition cancelTermination ::
  "DrawingCanvas \<Rightarrow> terminationCounter \<Rightarrow> DrawingCanvas \<times> terminationCounter" where
  "cancelTermination s c =
     (case terminationState s of
        Idle \<Rightarrow> (s, c)
      | WaitingForSecondClick _ num _ \<Rightarrow>
          let (s1, c1) =
                (if elements s = [] then (s, c)
                 else case val (last (elements s)) of
                        Termination _ _ _ _ number _ _ \<Rightarrow>
                          if number = num
                          then (s\<lparr> elements := butlast (elements s) \<rparr>,
                                recycleTerminationNumber num c)
                          else (s, c)
                      | _ \<Rightarrow> (s, c))
          in (s1\<lparr> terminationState := Idle \<rparr>, c1))"

definition cancelCurrentOperation ::
  "DrawingCanvas \<Rightarrow> terminationCounter \<Rightarrow> DrawingCanvas \<times> terminationCounter" where
  "cancelCurrentOperation s c =
     (let s1 = (if isDrawing s
                then s\<lparr> isDrawing := False, points := [], activeElement := None \<rparr> else s);
          s2 = (if textInput s1 then s1\<lparr> textInput := False \<rparr> else s1)
      in cancelTermination s2 c)"

definition setTool ::
  "string \<Rightarrow> DrawingCanvas \<Rightarrow> terminationCounter \<Rightarrow> DrawingCanvas \<times> terminationCounter" where
  "setTool tool s c =
     (let (s1, c1) = cancelCurrentOperation s c
      in (s1\<lparr> currentTool := tool, hoverElement := None \<rparr>, c1))"

subsection \<open>Sequences of canvas operations\<close>

text \<open>
  The operations that record or replay history, as a user or the orchestrator can
  issue them in any order: \<open>addElement\<close>, an eraser click, \<open>undo\<close>, \<open>redo\<close>, \<open>clear\<close>.
\<close>

datatype canvasOp = OpAdd obj | OpErase point | OpUndo | OpRedo | OpClear

fun applyOp ::
  "DrawingCanvas \<times> terminationCounter \<Rightarrow> canvasOp \<Rightarrow> DrawingCanvas \<times> terminationCounter" where
  "applyOp (s, c) (OpAdd e) = (addElement e s, c)"
| "applyOp (s, c) (OpErase pos) = (handleEraser pos s, c)"
| "applyOp (s, c) OpUndo = snd (undo s c)"
| "applyOp (s, c) OpRedo = (snd (redo s), c)"
| "applyOp (s, c) OpClear = (clear s, c)"

definition runOps ::
  "DrawingCanvas \<times> terminationCounter \<Rightarrow> canvasOp list \<Rightarrow> DrawingCanvas \<times> terminationCounter" where
  "runOps st ops = foldl applyOp st ops"

definition historyTotal :: "DrawingCanvas \<Rightarrow> nat" where
  "historyTotal s = length (undoStack s) + length (redoStack s)"

section \<open>The orchestrator (src/exercise/js/storage.js, second part)\<close>

text \<open>
  \<open>AppState\<close> holds the two canvases (null until \<open>initializeCanvases\<close> has run) and the
  one \<open>terminationCounter\<close> object both were constructed with. \<open>nextRef\<close> is not a field
  of the source: it is the allocator of object references, the next reference a new
  object literal gets.
\<close>

datatype canvasName = crossSection | wheeler

record AppState =
  crossSectionCanvas :: "DrawingCanvas option"
  wheelerCanvas :: "DrawingCanvas option"
  terminationCounter :: terminationCounter
  activeCanvas :: canvasName
  nextRef :: nat

text \<open>
  \<open>initializeCanvases\<close>: each drawing canvas takes the pixel size of its background
  canvas; the counter is created as \<open>{ count: 0 }\<close>.
\<close>

definition initializeCanvases :: "real \<Rightarrow> real \<Rightarrow> real \<Rightarrow> real \<Rightarrow> AppState" where
  "initializeCanvases csWidth csHeight whWidth whHeight =
     \<lparr> crossSectionCanvas = Some (DrawingCanvas_new csWidth csHeight),
       wheelerCanvas = Some (DrawingCanvas_new whWidth whHeight),
       terminationCounter = \<lparr> count = 0, availableNumbers = None \<rparr>,
       activeCanvas = crossSection, nextRef = 0 \<rparr>"

definition getCanvas :: "canvasName \<Rightarrow> AppState \<Rightarrow> DrawingCanvas option" where
  "getCanvas name app =
     (case name of crossSection \<Rightarrow> crossSectionCanvas app | wheeler \<Rightarrow> wheelerCanvas app)"

definition setCanvas :: "canvasName \<Rightarrow> DrawingCanvas \<Rightarrow> AppState \<Rightarrow> AppState" where
  "setCanvas name s app =
     (case name of crossSection \<Rightarrow> app\<lparr> crossSectionCanvas := Some s \<rparr>
                 | wheeler \<Rightarrow> app\<lparr> wheelerCanvas := Some s \<rparr>)"

text \<open>\<open>const padding = { top: 40, right: 40, bottom: 60, left: 70 }\<close>\<close>

definition padding_top :: real where "padding_top = 40"
definition padding_right :: real where "padding_right = 40"
definition padding_bottom :: real where "padding_bottom = 60"
definition padding_left :: real where "padding_left = 70"

definition handleTerminationPlaced :: "termData \<Rightarrow> int \<Rightarrow> AppState \<Rightarrow> AppState" where
  "handleTerminationPlaced data now app =
     (case wheelerCanvas app of
        None \<Rightarrow> app
      | Some wheelerCanvas' \<Rightarrow>
          let plotWidth = canvasWidth wheelerCanvas' - padding_left - padding_right;
              plotHeight = canvasHeight wheelerCanvas' - padding_top - padding_bottom;
              x1Ratio = td_x1 data / td_canvasWidth data;
              x2Ratio = td_x2 data / td_canvasWidth data;
              wheelerX1 = padding_left + (x1Ratio * plotWidth);
              wheelerX2 = padding_left + (x2Ratio * plotWidth);
              yRatio = real_of_int (td_number data) / 50;
              wheelerY = canvasHeight wheelerCanvas' - padding_bottom - (yRatio * plotHeight);
              lineElement = Obj (nextRef app)
                  (TerminationLine ''#000000'' wheelerX1 wheelerX2 wheelerY
                     (td_label data) (td_number data) 4 now)
          in app\<lparr> wheelerCanvas := Some (addElement lineElement wheelerCanvas'),
                  nextRef := nextRef app + 1 \<rparr>)"

text \<open>
  A click with the termination tool on one of the canvases. Only the cross-section
  canvas is constructed with \<open>onTerminationPlaced: handleTerminationPlaced\<close>; the Wheeler
  canvas has the constructor's default, which does nothing.
\<close>

definition clickTermination :: "canvasName \<Rightarrow> point \<Rightarrow> int \<Rightarrow> AppState \<Rightarrow> AppState" where
  "clickTermination name pos now app =
     (case getCanvas name app of
        None \<Rightarrow> app
      | Some s \<Rightarrow>
          let (s1, c1, payload) = placeTermination pos now (nextRef app) s (terminationCounter app);
              app1 = (setCanvas name s1 app)\<lparr> terminationCounter := c1,
                                              nextRef := nextRef app + 1 \<rparr>
          in case payload of
               None \<Rightarrow> app1
             | Some data \<Rightarrow>
                 (case name of crossSection \<Rightarrow> handleTerminationPlaced data now app1
                             | wheeler \<Rightarrow> app1))"

text \<open>The orchestrator's \<open>setTool\<close>: it switches the tool of both canvases.\<close>

definition app_setTool :: "string \<Rightarrow> AppState \<Rightarrow> AppState" where
  "app_setTool tool app =
     (let app1 = (case crossSectionCanvas app of
                    None \<Rightarrow> app
                  | Some s \<Rightarrow> let (s1, c1) = setTool tool s (terminationCounter app)
                              in app\<lparr> crossSectionCanvas := Some s1, terminationCounter := c1 \<rparr>)
      in case wheelerCanvas app1 of
           None \<Rightarrow> app1
         | Some s \<Rightarrow> let (s1, c1) = setTool tool s (terminationCounter app1)
                     in app1\<lparr> wheelerCanvas := Some s1, terminationCounter := c1 \<rparr>)"

text \<open>
  \<open>handleUndo\<close>: undo on the active canvas first, and on the other one only when that
  returned \<open>false\<close>. \<open>undoOn\<close> is \<open>canvas && canvas.undo()\<close>: the returned flag, and
  the application with the canvas and the shared counter as \<open>undo\<close> left them. The
  active canvas is the one whose wrapper was clicked last, the cross-section at first.
\<close>

definition undoOn :: "canvasName \<Rightarrow> AppState \<Rightarrow> bool \<times> AppState" where
  "undoOn name app =
     (case getCanvas name app of
        None \<Rightarrow> (False, app)
      | Some s \<Rightarrow>
          let (ok, s1, c1) = undo s (terminationCounter app)
          in (ok, (setCanvas name s1 app)\<lparr> terminationCounter := c1 \<rparr>))"

definition handleUndo :: "AppState \<Rightarrow> AppState" where
  "handleUndo app =
     (let activeName = activeCanvas app;
          otherName = (if activeCanvas app = crossSection then wheeler else crossSection);
          (ok, app1) = undoOn activeName app
      in if ok then app1 else snd (undoOn otherName app1))"

subsection \<open>Runs of the termination tool\<close>

text \<open>
  The two user actions that drive the termination tool: a click with the tool on one of
  the canvases, and a tool switch (which cancels on both canvases).
\<close>

datatype appEvent = TerminationClick canvasName point int | SetTool string

fun appStep :: "AppState \<Rightarrow> appEvent \<Rightarrow> AppState" where
  "appStep app (TerminationClick name pos now) = clickTermination name pos now app"
| "appStep app (SetTool tool) = app_setTool tool app"

definition appRun :: "AppState \<Rightarrow> appEvent list \<Rightarrow> AppState" where
  "appRun app evs = foldl appStep app evs"

text \<open>
  The \<open>number\<close> fields of the termination elements of a list, in list order: all of
  them, and those of the elements with a given \<open>isFirstPoint\<close>.
\<close>

fun terminationNumbers :: "obj list \<Rightarrow> int list" where
  "terminationNumbers [] = []"
| "terminationNumbers (Obj _ (Termination _ _ _ _ number _ _) # es) =
     number # terminationNumbers es"
| "terminationNumbers (_ # es) = terminationNumbers es"

fun pointNumbers :: "bool \<Rightarrow> obj list \<Rightarrow> int list" where
  "pointNumbers f [] = []"
| "pointNumbers f (Obj _ (Termination _ _ _ _ number isFirstPoint _) # es) =
     (if isFirstPoint = f then number # pointNumbers f es else pointNumbers f es)"
| "pointNumbers f (_ # es) = pointNumbers f es"

text \<open>
  Invariants of such runs. For the registry, against a set of numbers in use: the pool
  holds no number twice and none that is in use, and nothing in the pool or in use
  exceeds \<open>count\<close>. For a canvas: no number is carried by two first-click elements or by
  two second-click elements, every second-click element has its first-click element,
  and a canvas awaiting the second click holds the first-click element of the pending
  number and no second-click element of it.
\<close>

definition poolOf :: "terminationCounter \<Rightarrow> int list" where
  "poolOf c = (case availableNumbers c of None \<Rightarrow> [] | Some a \<Rightarrow> a)"

definition counterInv :: "terminationCounter \<Rightarrow> int set \<Rightarrow> bool" where
  "counterInv c used \<longleftrightarrow>
     distinct (poolOf c) \<and> set (poolOf c) \<inter> used = {}
     \<and> (\<forall>p \<in> set (poolOf c). p \<le> count c) \<and> (\<forall>n \<in> used. n \<le> count c)"

definition canvasInv :: "DrawingCanvas \<Rightarrow> bool" where
  "canvasInv s \<longleftrightarrow>
     distinct (pointNumbers True (elements s)) \<and> distinct (pointNumbers False (elements s))
     \<and> set (pointNumbers False (elements s)) \<subseteq> set (pointNumbers True (elements s))
     \<and> (case terminationState s of
           Idle \<Rightarrow> True
         | WaitingForSecondClick _ num _ \<Rightarrow>
             num \<in> set (pointNumbers True (elements s))
             \<and> num \<notin> set (pointNumbers False (elements s)))"

definition appInv :: "AppState \<Rightarrow> bool" where
  "appInv app \<longleftrightarrow>
     (\<exists>cs wh. crossSectionCanvas app = Some cs \<and> wheelerCanvas app = Some wh
        \<and> canvasInv cs \<and> canvasInv wh
        \<and> set (pointNumbers True (elements cs)) \<inter> set (pointNumbers True (elements wh)) = {}
        \<and> counterInv (terminationCounter app)
             (set (pointNumbers True (elements cs)) \<union> set (pointNumbers True (elements wh))))"

subsection \<open>Auto-tract generation\<close>








section \<open>Properties of the timers\<close>

lemma warned_append [simp]: "warned (xs @ ys) = warned xs @ warned ys"
  by (induction xs rule: warned.induct) simp_all

lemma reported_append [simp]: "reported (xs @ ys) = reported xs @ reported ys"
  by (induction xs rule: reported.induct) simp_all

lemma remaining_checkWarning [simp]: "remaining (checkWarning time t) = remaining t"
  by (simp add: checkWarning_def saveState_def emit_def)

lemma warningTimes_checkWarning [simp]: "warningTimes (checkWarning time t) = warningTimes t"
  by (simp add: checkWarning_def saveState_def emit_def)

lemma remaining_fold_checkWarning [simp]:
  "remaining (fold checkWarning ts t) = remaining t"
  by (induction ts arbitrary: t) simp_all

lemma reported_fold_checkWarning [simp]:
  "reported (calls (fold checkWarning ts t)) = reported (calls t)"
  by (induction ts arbitrary: t) (simp_all add: checkWarning_def saveState_def emit_def)

subsection \<open>The deadline variant recomputes from the wall clock\<close>

text \<open>
  In part_001 every tick and every visibility check of a started timer reports
  \<open>max 0 (endTime - now)\<close>, whatever the stored \<open>remaining\<close> was.
\<close>

lemma tick_reports_deadline:
  assumes "endTime t = Some e" and "e \<noteq> 0"
  shows "reported (calls (tick now t)) = reported (calls t) @ [max 0 (e - now)]"
  using assms
  by (simp add: tick_def Let_def updateRemaining_def emit_def saveState_def clearState_def
      stop_def)

lemma visibility_reports_deadline:
  assumes "endTime t = Some e" and "e \<noteq> 0" and "isRunning t"
  shows "reported (calls (handleVisibilityChange now t))
           = reported (calls t) @ [max 0 (e - now)]"
  using assms
  by (simp add: handleVisibilityChange_def Let_def updateRemaining_def emit_def stop_def)

lemma deadline_tick_after_suspension:
  "reported (calls (tick (1700000000000 + 5999000)
       (start 1700000000000 (ExamTimer_new (Some 7200000))))) = [7200000, 1201000]"
  by (simp add: tick_def start_def ExamTimer_new_def Let_def emit_def updateRemaining_def
      checkWarning_def getTimerClass_def stop_def saveState_def clearState_def)

text \<open>
  C1, on the counter variant. In part_000 \<open>tick\<close> subtracts 1000 from the stored
  counter and never reads the clock: a timer of 7,200,000 ms started at wall clock
  1,700,000,000,000 whose first tick comes 5,999,000 ms later reports 7,199,000 ms,
  where the deadline gives 1,201,000 ms.
\<close>

theorem counter_tick_ignores_wall_clock:
  "reported (calls_v0 (tick_v0 (1700000000000 + 5999000)
       (start_v0 1700000000000 (ExamTimer_new_v0 (Some 7200000))))) = [7200000, 7199000]"
  by (simp add: tick_v0_def start_v0_def ExamTimer_new_v0_def Let_def emit_v0_def
      checkWarning_v0_def getTimerClass_v0_def stop_v0_def)

subsection \<open>Warnings\<close>

lemma warningTimes_fold_checkWarning [simp]:
  "warningTimes (fold checkWarning ts t) = warningTimes t"
  by (induction ts arbitrary: t) simp_all

lemma warningTimes_fold_mark [simp]:
  "warningTimes (fold (\<lambda>time u. if remaining u \<le> time
        then u\<lparr> warningsShown := setAdd time (warningsShown u) \<rparr> else u) ts t)
     = warningTimes t"
  by (induction ts arbitrary: t) simp_all
























text \<open>
  The counter variant guards its warnings in the same way, with a window of 1000 ms.
\<close>

lemma remaining_checkWarning_v0 [simp]:
  "remaining_v0 (checkWarning_v0 time t) = remaining_v0 t"
  by (simp add: checkWarning_v0_def emit_v0_def)

lemma warningTimes_checkWarning_v0 [simp]:
  "warningTimes_v0 (checkWarning_v0 time t) = warningTimes_v0 t"
  by (simp add: checkWarning_v0_def emit_v0_def)

lemma warningTimes_fold_checkWarning_v0 [simp]:
  "warningTimes_v0 (fold checkWarning_v0 ts t) = warningTimes_v0 t"
  by (induction ts arbitrary: t) simp_all

lemma warningTimes_fold_mark_v0 [simp]:
  "warningTimes_v0 (fold (\<lambda>time u. if remaining_v0 u \<le> time
        then u\<lparr> warningsShown_v0 := setAdd time (warningsShown_v0 u) \<rparr> else u) ts t)
     = warningTimes_v0 t"
  by (induction ts arbitrary: t) simp_all






















section \<open>Properties of the numbering registry\<close>

lemma hd_sorted_Min:
  fixes xs :: "int list"
  assumes "sorted xs" and "xs \<noteq> []"
  shows "hd xs = Min (set xs)"
proof -
  from assms obtain y ys where xs: "xs = y # ys" by (cases xs) auto
  with assms(1) have "\<forall>z \<in> set xs. y \<le> z" by auto
  then have "Min (set xs) = y"
    by (intro Min_eqI) (auto simp add: xs)
  then show ?thesis by (simp add: xs)
qed

lemma hd_sort_Min:
  fixes xs :: "int list"
  shows "xs \<noteq> [] \<Longrightarrow> hd (sort xs) = Min (set xs)"
proof -
  assume "xs \<noteq> []"
  then have "sort xs \<noteq> []" by (metis length_sort length_0_conv)
  then show ?thesis using hd_sorted_Min [of "sort xs"] by simp
qed

lemma tl_sort_remove1:
  fixes xs :: "int list"
  shows "xs \<noteq> [] \<Longrightarrow> tl (sort xs) = remove1 (Min (set xs)) (sort xs)"
proof -
  assume a: "xs \<noteq> []"
  then have "sort xs \<noteq> []" by (metis length_sort length_0_conv)
  then obtain y ys where s: "sort xs = y # ys" by (cases "sort xs") auto
  with hd_sort_Min [OF a] have "y = Min (set xs)" by simp
  with s show ?thesis by simp
qed

lemma getNext_nonempty:
  assumes "availableNumbers c = Some pool" and "pool \<noteq> []"
  shows "getNextTerminationNumber c =
     (Min (set pool), c\<lparr> availableNumbers := Some (remove1 (Min (set pool)) (sort pool)) \<rparr>)"
  using assms
  by (simp add: getNextTerminationNumber_def Let_def hd_sort_Min tl_sort_remove1)

lemma getNext_empty:
  assumes "availableNumbers c = None \<or> availableNumbers c = Some []"
  shows "getNextTerminationNumber c =
     (count c + 1, c\<lparr> count := count c + 1, availableNumbers := Some [] \<rparr>)"
  using assms
  by (auto simp add: getNextTerminationNumber_def Let_def)

lemma recycle_present:
  assumes "availableNumbers c = Some pool" and "n \<in> set pool"
  shows "recycleTerminationNumber n c = c"
  using assms by (simp add: recycleTerminationNumber_def Let_def)

lemma recycle_idem:
  "recycleTerminationNumber n (recycleTerminationNumber n c) = recycleTerminationNumber n c"
  by (simp add: recycleTerminationNumber_def Let_def)

lemma getNext_after_recycle:
  assumes "getNextTerminationNumber c = (v, c1)"
  shows "getNextTerminationNumber (recycleTerminationNumber v c1)
     = (v, (recycleTerminationNumber v c1)\<lparr> availableNumbers :=
             Some (remove1 v (sort (the (availableNumbers (recycleTerminationNumber v c1))))) \<rparr>)"
proof (cases "availableNumbers c = None \<or> availableNumbers c = Some []")
  case True
  from getNext_empty [OF True] assms
  have "v = count c + 1" "c1 = c\<lparr> count := count c + 1, availableNumbers := Some [] \<rparr>"
    by simp_all
  then show ?thesis
    by (simp add: recycleTerminationNumber_def getNextTerminationNumber_def Let_def)
next
  case False
  then obtain pool where p: "availableNumbers c = Some pool" "pool \<noteq> []" by auto
  from getNext_nonempty [OF p] assms
  have v: "v = Min (set pool)"
    and c1: "c1 = c\<lparr> availableNumbers := Some (remove1 (Min (set pool)) (sort pool)) \<rparr>"
    by simp_all
  let ?rest = "remove1 v (sort pool)"
  let ?pool' = "if v \<in> set ?rest then ?rest else ?rest @ [v]"
  have a: "availableNumbers (recycleTerminationNumber v c1) = Some ?pool'"
    by (simp add: recycleTerminationNumber_def Let_def c1 v)
  have ne: "?pool' \<noteq> []" by auto
  have "v \<le> z" if "z \<in> set ?rest" for z
  proof -
    from that have "z \<in> set pool"
      using set_remove1_subset [of v "sort pool"] by auto
    then show ?thesis by (simp add: v)
  qed
  then have "\<forall>z \<in> set ?pool'. v \<le> z" by auto
  then have "Min (set ?pool') = v"
    by (intro Min_eqI) auto
  with getNext_nonempty [OF a ne] a show ?thesis by simp
qed

text \<open>
  C4. With a non-empty pool \<open>getNextTerminationNumber\<close> returns the smallest pooled
  number and removes it (the pool is left sorted, as the in-place sort leaves it); with
  an empty or undefined pool it increments \<open>count\<close> and returns the new count.
  Recycling a number that is in the pool changes nothing, and recycling twice is
  recycling once. Allocating, recycling the allocated number and allocating again
  returns the same number without incrementing \<open>count\<close>.
\<close>

theorem registry_smallest_first_recycle_idempotent:
  "(\<forall>pool. availableNumbers c = Some pool \<and> pool \<noteq> [] \<longrightarrow>
       getNextTerminationNumber c =
         (Min (set pool),
          c\<lparr> availableNumbers := Some (remove1 (Min (set pool)) (sort pool)) \<rparr>))
   \<and> (availableNumbers c = None \<or> availableNumbers c = Some [] \<longrightarrow>
       getNextTerminationNumber c =
         (count c + 1, c\<lparr> count := count c + 1, availableNumbers := Some [] \<rparr>))
   \<and> (\<forall>pool. availableNumbers c = Some pool \<and> n \<in> set pool \<longrightarrow>
       recycleTerminationNumber n c = c)
   \<and> recycleTerminationNumber n (recycleTerminationNumber n c) = recycleTerminationNumber n c
   \<and> (\<forall>v c1. getNextTerminationNumber c = (v, c1) \<longrightarrow>
         fst (getNextTerminationNumber (recycleTerminationNumber v c1)) = v
         \<and> count (snd (getNextTerminationNumber (recycleTerminationNumber v c1))) = count c1)"
  using getNext_nonempty [of c] getNext_empty [of c] recycle_present [of c _ n]
    recycle_idem [of n c] getNext_after_recycle [of c]
  by (simp add: recycleTerminationNumber_def Let_def)

theorem registry_smallest_first_recycle_idempotent_witness:
  "availableNumbers \<lparr> count = 7, availableNumbers = Some [5, 2] \<rparr> = Some [5, 2]
   \<and> [5, 2] \<noteq> ([] :: int list) \<and> (5 :: int) \<in> set [5, 2]
   \<and> getNextTerminationNumber \<lparr> count = 7, availableNumbers = Some [5, 2] \<rparr>
       = (2, \<lparr> count = 7, availableNumbers = Some [5] \<rparr>)
   \<and> recycleTerminationNumber 5 \<lparr> count = 7, availableNumbers = Some [5, 2] \<rparr>
       = \<lparr> count = 7, availableNumbers = Some [5, 2] \<rparr>
   \<and> fst (getNextTerminationNumber
          (recycleTerminationNumber 2 \<lparr> count = 7, availableNumbers = Some [5] \<rparr>)) = 2"
  using registry_smallest_first_recycle_idempotent
    [of "\<lparr> count = 7, availableNumbers = Some [5, 2] \<rparr>" 5]
  by (simp add: getNextTerminationNumber_def recycleTerminationNumber_def Let_def)

section \<open>Properties of the canvas\<close>

lemma numStr_1_2: "numStr 1 = ''1''" "numStr 2 = ''2''"
  by (simp_all add: numStr_def)

text \<open>
  C10. \<open>clear\<close> empties the element list and both history stacks and resets the
  in-progress polyline state, and leaves the two-click termination state as it was
  (the registry is not among the things \<open>clear\<close> reads or writes). On a canvas cleared
  while it awaited a second click, the next termination click is the second click of
  the old pair: it does not consult the registry, commits one second-point element
  with the old number, and hands the projection callback a payload computed from the
  stale first point.
\<close>

theorem clear_keeps_termination_state:
  "elements (clear s) = [] \<and> undoStack (clear s) = [] \<and> redoStack (clear s) = []
   \<and> points (clear s) = [] \<and> \<not> isDrawing (clear s) \<and> activeElement (clear s) = None
   \<and> terminationState (clear s) = terminationState s
   \<and> (terminationState s = WaitingForSecondClick firstPoint num color \<longrightarrow>
        (\<exists>s'. placeTermination pos now r (clear s) c =
            (s', c, Some \<lparr> td_x1 = min (fst firstPoint) (fst pos),
                           td_x2 = max (fst firstPoint) (fst pos),
                           td_y1 = (if fst firstPoint < fst pos then snd firstPoint else snd pos),
                           td_y2 = (if fst firstPoint < fst pos then snd pos else snd firstPoint),
                           td_label = numStr num @ ''-'' @ numStr num, td_number = num,
                           td_color = color, td_canvasWidth = canvasWidth s,
                           td_canvasHeight = canvasHeight s \<rparr>)
          \<and> elements s' = [Obj r (Termination color (fst pos) (snd pos) (numStr num) num False now)]
          \<and> terminationState s' = Idle))"
  by (simp add: clear_def placeTermination_def Let_def addElement_def)

theorem clear_keeps_termination_state_witness:
  "terminationState (fst (placeTermination (100, 50) 1000 0 (DrawingCanvas_new 1400 800)
       \<lparr> count = 0, availableNumbers = None \<rparr>))
     = WaitingForSecondClick (100, 50) 1 ''#FF0000''
   \<and> (\<exists>s'. placeTermination (300, 60) 2000 1
          (clear (fst (placeTermination (100, 50) 1000 0 (DrawingCanvas_new 1400 800)
             \<lparr> count = 0, availableNumbers = None \<rparr>)))
          \<lparr> count = 1, availableNumbers = Some [] \<rparr>
        = (s', \<lparr> count = 1, availableNumbers = Some [] \<rparr>,
           Some \<lparr> td_x1 = 100, td_x2 = 300, td_y1 = 50, td_y2 = 60,
                  td_label = ''1-1'', td_number = 1, td_color = ''#FF0000'',
                  td_canvasWidth = 1400, td_canvasHeight = 800 \<rparr>)
        \<and> elements s' = [Obj 1 (Termination ''#FF0000'' 300 60 ''1'' 1 False 2000)]
        \<and> terminationState s' = Idle)"
proof -
  let ?s = "fst (placeTermination (100, 50) 1000 0 (DrawingCanvas_new 1400 800)
       \<lparr> count = 0, availableNumbers = None \<rparr>)"
  have w: "terminationState ?s = WaitingForSecondClick (100, 50) 1 ''#FF0000''"
    by (simp add: placeTermination_def DrawingCanvas_new_def getNextTerminationNumber_def
        Let_def addElement_def)
  have d: "numStr 1 = ''1''" by (simp add: numStr_def)
  have c: "canvasWidth ?s = 1400" "canvasHeight ?s = 800"
    by (simp_all add: placeTermination_def DrawingCanvas_new_def getNextTerminationNumber_def
        Let_def addElement_def)
  from clear_keeps_termination_state
    [of ?s "(100, 50)" 1 "''#FF0000''" "(300, 60)" 2000 1 "\<lparr> count = 1, availableNumbers = Some [] \<rparr>"]
  show ?thesis using w by (simp add: d c)
qed

lemma placeTermination_first:
  assumes "terminationState s = Idle"
  shows "placeTermination pos now r s c =
     (addElement (Obj r (Termination (currentColor s) (fst pos) (snd pos)
                    (numStr (fst (getNextTerminationNumber c)))
                    (fst (getNextTerminationNumber c)) True now))
        (s\<lparr> terminationState := WaitingForSecondClick (fst pos, snd pos)
                (fst (getNextTerminationNumber c)) (currentColor s) \<rparr>),
      snd (getNextTerminationNumber c), None)"
  using assms by (simp add: placeTermination_def Let_def split_beta)

lemma addElement_fields [simp]:
  "elements (addElement e s) = elements s @ [e]"
  "redoStack (addElement e s) = []"
  "terminationState (addElement e s) = terminationState s"
  "canvasWidth (addElement e s) = canvasWidth s"
  "canvasHeight (addElement e s) = canvasHeight s"
  "currentColor (addElement e s) = currentColor s"
  by (simp_all add: addElement_def Let_def)

text \<open>
  C3. From a state in which the cross-section canvas is idle, two termination clicks on
  it at \<open>a\<close> and \<open>b\<close> (whatever its drawing color) append exactly one element to the
  Wheeler canvas: a \<open>terminationLine\<close> of color \<open>#000000\<close> whose \<open>x1\<close> and \<open>x2\<close> are the
  smaller and the larger of the two clicked x, divided by the cross-section canvas
  width and scaled into the Wheeler plot area. For a cross-section canvas of positive
  width and a Wheeler canvas at least as wide as its horizontal padding, \<open>x1 \<le> x2\<close>.
\<close>

theorem termination_pair_projects_one_black_line:
  assumes "crossSectionCanvas app = Some cs" and "wheelerCanvas app = Some wh"
    and "terminationState cs = Idle"
    and "0 < canvasWidth cs" and "padding_left + padding_right \<le> canvasWidth wh"
  shows "\<exists>wh' num x1 x2 y.
      wheelerCanvas (clickTermination crossSection b t2
                       (clickTermination crossSection a t1 app)) = Some wh'
      \<and> elements wh' = elements wh @
            [Obj (nextRef app + 2)
               (TerminationLine ''#000000'' x1 x2 y (numStr num @ ''-'' @ numStr num) num 4 t2)]
      \<and> num = fst (getNextTerminationNumber (terminationCounter app))
      \<and> x1 = padding_left + (min (fst a) (fst b) / canvasWidth cs)
                               * (canvasWidth wh - padding_left - padding_right)
      \<and> x2 = padding_left + (max (fst a) (fst b) / canvasWidth cs)
                               * (canvasWidth wh - padding_left - padding_right)
      \<and> y = canvasHeight wh - padding_bottom
               - (real_of_int num / 50) * (canvasHeight wh - padding_top - padding_bottom)
      \<and> x1 \<le> x2"
proof -
  let ?num = "fst (getNextTerminationNumber (terminationCounter app))"
  let ?c1 = "snd (getNextTerminationNumber (terminationCounter app))"
  let ?e1 = "Obj (nextRef app) (Termination (currentColor cs) (fst a) (snd a)
                    (numStr ?num) ?num True t1)"
  let ?cs1 = "addElement ?e1 (cs\<lparr> terminationState :=
                WaitingForSecondClick (fst a, snd a) ?num (currentColor cs) \<rparr>)"
  let ?app1 = "app\<lparr> crossSectionCanvas := Some ?cs1, terminationCounter := ?c1,
                     nextRef := nextRef app + 1 \<rparr>"
  have step1: "clickTermination crossSection a t1 app = ?app1"
    using assms(1,3)
    by (simp add: clickTermination_def getCanvas_def setCanvas_def placeTermination_first)
  have mono: "min (fst a) (fst b) / canvasWidth cs \<le> max (fst a) (fst b) / canvasWidth cs"
    using assms(4) by (simp add: divide_right_mono)
  have le: "(min (fst a) (fst b) / canvasWidth cs) * (canvasWidth wh - padding_left - padding_right)
      \<le> (max (fst a) (fst b) / canvasWidth cs) * (canvasWidth wh - padding_left - padding_right)"
    using mono assms(5) by (intro mult_right_mono) simp_all
  show ?thesis
    unfolding step1
    using assms(2) le
    by (simp add: clickTermination_def getCanvas_def setCanvas_def placeTermination_def
        Let_def handleTerminationPlaced_def)
qed

theorem termination_pair_projects_one_black_line_witness:
  "crossSectionCanvas (initializeCanvases 1400 800 1200 700) = Some (DrawingCanvas_new 1400 800)
   \<and> wheelerCanvas (initializeCanvases 1400 800 1200 700) = Some (DrawingCanvas_new 1200 700)
   \<and> terminationState (DrawingCanvas_new 1400 800) = Idle
   \<and> 0 < canvasWidth (DrawingCanvas_new 1400 800)
   \<and> padding_left + padding_right \<le> canvasWidth (DrawingCanvas_new 1200 700)
   \<and> (\<exists>wh'. wheelerCanvas (clickTermination crossSection (100, 220) 2000
                 (clickTermination crossSection (300, 200) 1000
                    (initializeCanvases 1400 800 1200 700))) = Some wh'
        \<and> elements wh' =
            [Obj 2 (TerminationLine ''#000000'' (1035 / 7) (2125 / 7) 628 ''1-1'' 1 4 2000)])"
proof -
  have h: "crossSectionCanvas (initializeCanvases 1400 800 1200 700) = Some (DrawingCanvas_new 1400 800)"
    "wheelerCanvas (initializeCanvases 1400 800 1200 700) = Some (DrawingCanvas_new 1200 700)"
    "terminationState (DrawingCanvas_new 1400 800) = Idle"
    "0 < canvasWidth (DrawingCanvas_new 1400 800)"
    "padding_left + padding_right \<le> canvasWidth (DrawingCanvas_new 1200 700)"
    by (simp_all add: initializeCanvases_def DrawingCanvas_new_def padding_left_def padding_right_def)
  have n: "fst (getNextTerminationNumber \<lparr>count = 0, availableNumbers = None\<rparr>) = 1"
    by (simp add: getNextTerminationNumber_def)
  have d: "numStr 1 = ''1''" by (simp add: numStr_def)
  from termination_pair_projects_one_black_line [OF h, of "(100, 220)" 2000 "(300, 200)" 1000]
  show ?thesis
    using h
    by (auto simp add: n d initializeCanvases_def DrawingCanvas_new_def padding_left_def
        padding_right_def padding_top_def padding_bottom_def)
qed



subsection \<open>Undo and redo\<close>

lemma indexOf_ge: "- 1 \<le> indexOf xs e"
  by (induction xs) (auto simp add: Let_def)

lemma indexOf_append_fresh:
  "ref e \<notin> ref ` set xs \<Longrightarrow> indexOf (xs @ [e]) e = int (length xs)"
  by (induction xs) (auto simp add: Let_def)

lemma splice_last [simp]: "splice (xs @ [e]) (int (length xs)) (Suc 0) [] = xs"
  by (simp add: splice_def Let_def)

lemma drop_cap_snoc:
  assumes "m \<le> length u" and "0 < m"
  shows "tl (drop (length u - m) u) @ [a] = drop (Suc (length u) - m) (u @ [a])"
proof -
  have e: "Suc (length u) - m = Suc (length u - m)"
    using assms(1) by (rule Suc_diff_le)
  have "drop (Suc (length u - m)) (u @ [a]) = drop (Suc (length u - m)) u @ [a]"
    using assms by simp
  moreover have "tl (drop (length u - m) u) = drop (Suc (length u - m)) u"
    by (simp add: drop_Suc tl_drop)
  ultimately show ?thesis by (simp only: e)
qed

lemma undo_returns: "fst (undo s c) = (undoStack s \<noteq> [])"
  by (simp add: undo_def Let_def split: action.splits)

lemma redo_returns: "fst (redo s) = (redoStack s \<noteq> [])"
  by (simp add: redo_def Let_def split: action.splits)

lemma undo_add_last:
  assumes "undoStack s = U @ [Add e]" and "elements s = X @ [e]" and "ref e \<notin> ref ` set X"
  shows "\<exists>c'. undo s c =
     (True, s\<lparr> undoStack := U, elements := X, redoStack := redoStack s @ [Add e] \<rparr>, c')"
  using assms
  by (simp add: undo_def Let_def indexOf_append_fresh)

lemma undoN_adds:
  assumes "elements s = X @ es" and "undoStack s = U @ map Add es"
    and "distinct (map ref es)" and "ref ` set es \<inter> ref ` set X = {}"
  shows "\<exists>c'. undoN (length es) s c =
     (replicate (length es) True,
      s\<lparr> undoStack := U, elements := X, redoStack := redoStack s @ rev (map Add es) \<rparr>, c')"
  using assms
proof (induction es arbitrary: s c rule: rev_induct)
  case Nil
  then show ?case by simp
next
  case (snoc e es)
  let ?s1 = "s\<lparr> undoStack := U @ map Add es, elements := X @ es,
                 redoStack := redoStack s @ [Add e] \<rparr>"
  have fresh: "ref e \<notin> ref ` set (X @ es)"
    using snoc.prems(3,4) by auto
  from undo_add_last [of s "U @ map Add es" e "X @ es" c] snoc.prems(1,2) fresh
  obtain c1 where u: "undo s c = (True, ?s1, c1)" by auto
  have "\<exists>c'. undoN (length es) ?s1 c1 =
     (replicate (length es) True,
      ?s1\<lparr> undoStack := U, elements := X, redoStack := redoStack ?s1 @ rev (map Add es) \<rparr>, c')"
    using snoc.prems(3,4) by (intro snoc.IH) auto
  then obtain c2 where n: "undoN (length es) ?s1 c1 =
     (replicate (length es) True,
      ?s1\<lparr> undoStack := U, elements := X, redoStack := redoStack ?s1 @ rev (map Add es) \<rparr>, c2)"
    by blast
  show ?case
    by (simp add: u n replicate_append_same)
qed

lemma redo_add_last:
  assumes "redoStack s = R @ [Add e]"
  shows "redo s = (True, s\<lparr> redoStack := R, elements := elements s @ [e],
                            undoStack := undoStack s @ [Add e] \<rparr>)"
  using assms by (simp add: redo_def Let_def)

lemma redoN_adds:
  assumes "redoStack s = R @ rev (map Add es)"
  shows "redoN (length es) s =
     (replicate (length es) True,
      s\<lparr> redoStack := R, elements := elements s @ es, undoStack := undoStack s @ map Add es \<rparr>)"
  using assms
proof (induction es arbitrary: s)
  case Nil
  then show ?case by simp
next
  case (Cons e es)
  let ?s1 = "s\<lparr> redoStack := R @ rev (map Add es), elements := elements s @ [e],
                 undoStack := undoStack s @ [Add e] \<rparr>"
  have r: "redo s = (True, ?s1)"
    using redo_add_last [of s "R @ rev (map Add es)" e] Cons.prems by simp
  have "redoN (length es) ?s1 =
     (replicate (length es) True,
      ?s1\<lparr> redoStack := R, elements := elements ?s1 @ es,
            undoStack := undoStack ?s1 @ map Add es \<rparr>)"
    by (intro Cons.IH) simp
  then show ?case by (simp add: r)
qed

lemma undoN_empty: "undoStack s = [] \<Longrightarrow> undoN k s c = (replicate k False, s, c)"
  by (induction k) (simp_all add: undo_def)

lemma undoN_add:
  "undoN (a + b) s c =
     (case undoN a s c of (bs, s1, c1) \<Rightarrow>
        (case undoN b s1 c1 of (bs', s2, c2) \<Rightarrow> (bs @ bs', s2, c2)))"
  by (induction a arbitrary: s c) (simp_all split: prod.splits)

lemma addAll_snoc: "addAll (es @ [e]) s = addElement e (addAll es s)"
  by (simp add: addAll_def)

lemma undoStack_addElement:
  "undoStack (addElement e s) =
     (if length (undoStack s) \<ge> maxHistory then tl (undoStack s) else undoStack s) @ [Add e]"
  by (simp add: addElement_def Let_def)

lemma elements_addAll: "elements (addAll es s) = elements s @ es"
  by (induction es rule: rev_induct) (simp_all add: addAll_snoc, simp add: addAll_def)

lemma undoStack_addAll_short:
  assumes "length es \<le> maxHistory"
  shows "\<exists>k. undoStack (addAll es s) = drop k (undoStack s) @ map Add es"
  using assms
proof (induction es rule: rev_induct)
  case Nil
  have "undoStack (addAll [] s) = drop 0 (undoStack s) @ map Add []" by (simp add: addAll_def)
  then show ?case by blast
next
  case (snoc e es)
  then obtain k where k: "undoStack (addAll es s) = drop k (undoStack s) @ map Add es"
    by auto
  show ?case
  proof (cases "length (undoStack (addAll es s)) \<ge> maxHistory")
    case True
    with snoc.prems k have "drop k (undoStack s) \<noteq> []" by auto
    then have "tl (drop k (undoStack s) @ map Add es) = drop (Suc k) (undoStack s) @ map Add es"
      by (simp add: drop_Suc tl_drop)
    with True k have "undoStack (addAll (es @ [e]) s)
        = drop (Suc k) (undoStack s) @ map Add (es @ [e])"
      by (simp add: addAll_snoc undoStack_addElement)
    then show ?thesis by blast
  next
    case False
    with k have "undoStack (addAll (es @ [e]) s) = drop k (undoStack s) @ map Add (es @ [e])"
      by (simp add: addAll_snoc undoStack_addElement)
    then show ?thesis by blast
  qed
qed

lemma undoStack_addAll_capped:
  assumes "length (undoStack s) \<le> maxHistory"
  shows "undoStack (addAll es s)
     = drop (length (undoStack s @ map Add es) - maxHistory) (undoStack s @ map Add es)"
  using assms
proof (induction es rule: rev_induct)
  case Nil
  then show ?case by (simp add: addAll_def)
next
  case (snoc e es)
  let ?u = "undoStack s @ map Add es"
  have ih: "undoStack (addAll es s) = drop (length ?u - maxHistory) ?u"
    using snoc by simp
  show ?case
  proof (cases "length ?u \<ge> maxHistory")
    case True
    then have "length (undoStack (addAll es s)) = maxHistory"
      by (simp add: ih)
    moreover have "tl (drop (length ?u - maxHistory) ?u) @ [Add e]
        = drop (Suc (length ?u) - maxHistory) (?u @ [Add e])"
      using True by (intro drop_cap_snoc) (simp_all add: maxHistory_def)
    ultimately show ?thesis
      by (simp only: addAll_snoc undoStack_addElement ih) simp
  next
    case False
    then show ?thesis
      by (simp add: addAll_snoc undoStack_addElement ih)
  qed
qed


lemma roundtrip_within_cap:
  assumes "distinct (map ref es)" and "ref ` set es \<inter> ref ` set (elements s) = {}"
    and "length es \<le> maxHistory"
  shows "elements (addAll es s) = elements s @ es
      \<and> (\<exists>s2 c2. undoN (length es) (addAll es s) c = (replicate (length es) True, s2, c2)
           \<and> elements s2 = elements s
           \<and> (\<exists>s3. redoN (length es) s2 = (replicate (length es) True, s3)
                \<and> elements s3 = elements s @ es))"
proof -
  let ?s1 = "addAll es s"
  from undoStack_addAll_short [OF assms(3), of s]
  obtain k where k: "undoStack ?s1 = drop k (undoStack s) @ map Add es" by blast
  let ?s2 = "?s1\<lparr> undoStack := drop k (undoStack s), elements := elements s,
                   redoStack := redoStack ?s1 @ rev (map Add es) \<rparr>"
  from undoN_adds [of ?s1 "elements s" es "drop k (undoStack s)" c] k assms(1,2)
  obtain c2 where u: "undoN (length es) ?s1 c = (replicate (length es) True, ?s2, c2)"
    by (auto simp add: elements_addAll)
  have r: "redoN (length es) ?s2 =
     (replicate (length es) True,
      ?s2\<lparr> redoStack := redoStack ?s1, elements := elements ?s2 @ es,
            undoStack := undoStack ?s2 @ map Add es \<rparr>)"
    by (intro redoN_adds) simp
  show ?thesis
    using u r by (simp add: elements_addAll)
qed

lemma evicted_not_undoable:
  assumes "distinct (map ref es)" and "ref ` set es \<inter> ref ` set (elements s) = {}"
    and "length es > maxHistory" and "length (undoStack s) \<le> maxHistory"
  shows "\<exists>s2 c2. undoN (length es) (addAll es s) c
          = (replicate maxHistory True @ replicate (length es - maxHistory) False, s2, c2)
        \<and> elements s2 = elements s @ take (length es - maxHistory) es"
proof -
  let ?s1 = "addAll es s"
  let ?d = "length es - maxHistory"
  let ?old = "take ?d es" and ?new = "drop ?d es"
  have len: "length ?new = maxHistory" using assms(3) by simp
  have "undoStack ?s1 = drop ?d (map Add es)"
    using undoStack_addAll_capped [OF assms(4), of es] assms(3,4) by simp
  then have us: "undoStack ?s1 = [] @ map Add ?new" by (simp add: drop_map)
  have el: "elements ?s1 = (elements s @ ?old) @ ?new"
    by (simp add: elements_addAll)
  have es: "es = ?old @ ?new" by simp
  have d1: "distinct (map ref ?new)"
    using assms(1) by (simp add: distinct_drop drop_map [symmetric])
  have "ref ` set ?new \<inter> ref ` set ?old = {}"
    using assms(1) es
    by (metis distinct_append inf_commute map_append set_map)
  moreover have "ref ` set ?new \<inter> ref ` set (elements s) = {}"
    using assms(2) set_drop_subset [of ?d es] by blast
  ultimately have d2: "ref ` set ?new \<inter> ref ` set (elements s @ ?old) = {}"
    by auto
  let ?s2 = "?s1\<lparr> undoStack := [], elements := elements s @ ?old,
                   redoStack := redoStack ?s1 @ rev (map Add ?new) \<rparr>"
  from undoN_adds [OF el us d1 d2, of c]
  obtain c2 where "undoN (length ?new) ?s1 c = (replicate (length ?new) True, ?s2, c2)"
    by blast
  then have u: "undoN maxHistory ?s1 c = (replicate maxHistory True, ?s2, c2)"
    unfolding len .
  have e: "undoN ?d ?s2 c2 = (replicate ?d False, ?s2, c2)"
    by (intro undoN_empty) simp
  have "length es = maxHistory + ?d" using assms(3) by simp
  then have "undoN (length es) ?s1 c =
     (replicate maxHistory True @ replicate ?d False, ?s2, c2)"
    using undoN_add [of maxHistory ?d ?s1 c] u e by simp
  then show ?thesis by simp
qed

text \<open>
  C5. The elements handed to \<open>addElement\<close> are new objects (every call site passes a
  fresh object literal): their references are distinct and not in the element list.
  For up to 50 such consecutive adds on any canvas, as many undos all return true and
  restore the element list to what it was before the first add, and as many redos then
  all return true and give back the list after the last add. \<open>undo\<close> and \<open>redo\<close> return
  true exactly when their stack is non-empty. After more than 50 consecutive adds (on a
  canvas whose undo stack respected the cap) only the last 50 can be undone: the
  further undos return false and the earlier elements stay.
\<close>

theorem undo_redo_roundtrip:
  "(distinct (map ref es) \<and> ref ` set es \<inter> ref ` set (elements s) = {}
      \<and> length es \<le> maxHistory \<longrightarrow>
      elements (addAll es s) = elements s @ es
      \<and> (\<exists>s2 c2. undoN (length es) (addAll es s) c = (replicate (length es) True, s2, c2)
           \<and> elements s2 = elements s
           \<and> (\<exists>s3. redoN (length es) s2 = (replicate (length es) True, s3)
                \<and> elements s3 = elements s @ es)))
   \<and> fst (undo s c) = (undoStack s \<noteq> [])
   \<and> fst (redo s) = (redoStack s \<noteq> [])
   \<and> (distinct (map ref es) \<and> ref ` set es \<inter> ref ` set (elements s) = {}
      \<and> length es > maxHistory \<and> length (undoStack s) \<le> maxHistory \<longrightarrow>
      (\<exists>s2 c2. undoN (length es) (addAll es s) c
          = (replicate maxHistory True @ replicate (length es - maxHistory) False, s2, c2)
        \<and> elements s2 = elements s @ take (length es - maxHistory) es))"
  using roundtrip_within_cap [of es s c] evicted_not_undoable [of es s c]
    undo_returns [of s c] redo_returns [of s]
  by blast


theorem undo_redo_roundtrip_witness:
  "(distinct (map ref [Obj 0 (Marker ''#FF0000'' 10 10 12 1000),
                       Obj 1 (Termination ''#FF0000'' 20 20 ''1'' 1 True 2000)])
    \<and> ref ` set [Obj 0 (Marker ''#FF0000'' 10 10 12 1000),
                  Obj 1 (Termination ''#FF0000'' 20 20 ''1'' 1 True 2000)]
        \<inter> ref ` set (elements (DrawingCanvas_new 1400 800)) = {}
    \<and> length [Obj 0 (Marker ''#FF0000'' 10 10 12 1000),
               Obj 1 (Termination ''#FF0000'' 20 20 ''1'' 1 True 2000)] \<le> maxHistory
    \<and> (\<exists>s2 c2. undoN 2 (addAll [Obj 0 (Marker ''#FF0000'' 10 10 12 1000),
                                   Obj 1 (Termination ''#FF0000'' 20 20 ''1'' 1 True 2000)]
                            (DrawingCanvas_new 1400 800))
                   \<lparr> count = 1, availableNumbers = None \<rparr> = ([True, True], s2, c2)
          \<and> elements s2 = []
          \<and> (\<exists>s3. redoN 2 s2 = ([True, True], s3)
               \<and> elements s3 = [Obj 0 (Marker ''#FF0000'' 10 10 12 1000),
                                 Obj 1 (Termination ''#FF0000'' 20 20 ''1'' 1 True 2000)])))
   \<and> (distinct (map ref (map (\<lambda>i. Obj i (Marker ''#FF0000'' 0 0 12 0)) [0..<51]))
    \<and> ref ` set (map (\<lambda>i. Obj i (Marker ''#FF0000'' 0 0 12 0)) [0..<51])
        \<inter> ref ` set (elements (DrawingCanvas_new 1400 800)) = {}
    \<and> length (map (\<lambda>i. Obj i (Marker ''#FF0000'' 0 0 12 0)) [0..<51]) > maxHistory
    \<and> length (undoStack (DrawingCanvas_new 1400 800)) \<le> maxHistory
    \<and> (\<exists>s2 c2. undoN 51 (addAll (map (\<lambda>i. Obj i (Marker ''#FF0000'' 0 0 12 0)) [0..<51])
                             (DrawingCanvas_new 1400 800))
                   \<lparr> count = 1, availableNumbers = None \<rparr>
                 = (replicate 50 True @ [False], s2, c2)
          \<and> elements s2 = [Obj 0 (Marker ''#FF0000'' 0 0 12 0)]))"
proof -
  let ?s0 = "DrawingCanvas_new 1400 800"
  let ?c0 = "\<lparr> count = 1, availableNumbers = None \<rparr>"
  let ?es = "[Obj 0 (Marker ''#FF0000'' 10 10 12 1000),
              Obj 1 (Termination ''#FF0000'' 20 20 ''1'' 1 True 2000)]"
  let ?fs = "map (\<lambda>i. Obj i (Marker ''#FF0000'' 0 0 12 0)) [0..<51]"
  have h1: "distinct (map ref ?es) \<and> ref ` set ?es \<inter> ref ` set (elements ?s0) = {}
      \<and> length ?es \<le> maxHistory"
    by (simp add: DrawingCanvas_new_def maxHistory_def)
  have h2: "distinct (map ref ?fs) \<and> ref ` set ?fs \<inter> ref ` set (elements ?s0) = {}
      \<and> length ?fs > maxHistory \<and> length (undoStack ?s0) \<le> maxHistory"
    by (simp add: DrawingCanvas_new_def maxHistory_def comp_def)
  have e: "elements ?s0 = []" by (simp add: DrawingCanvas_new_def)
  have t: "take (length ?fs - maxHistory) ?fs = [Obj 0 (Marker ''#FF0000'' 0 0 12 0)]"
    by (simp add: maxHistory_def take_map upt_conv_Cons)
  have l: "length ?es = 2" "length ?fs = 51" "replicate 2 True = [True, True]"
    "replicate (51 - maxHistory) False = [False]" "maxHistory = 50"
    by (simp_all add: maxHistory_def numeral_2_eq_2)
  from undo_redo_roundtrip [of ?es ?s0 ?c0] h1
  have p1: "\<exists>s2 c2. undoN (length ?es) (addAll ?es ?s0) ?c0 = (replicate (length ?es) True, s2, c2)
           \<and> elements s2 = elements ?s0
           \<and> (\<exists>s3. redoN (length ?es) s2 = (replicate (length ?es) True, s3)
                \<and> elements s3 = elements ?s0 @ ?es)"
    by blast
  from undo_redo_roundtrip [of ?fs ?s0 ?c0] h2
  have p2: "\<exists>s2 c2. undoN (length ?fs) (addAll ?fs ?s0) ?c0
          = (replicate maxHistory True @ replicate (length ?fs - maxHistory) False, s2, c2)
        \<and> elements s2 = elements ?s0 @ take (length ?fs - maxHistory) ?fs"
    by blast
  from p1 have q1: "\<exists>s2 c2. undoN 2 (addAll ?es ?s0) ?c0 = ([True, True], s2, c2)
          \<and> elements s2 = []
          \<and> (\<exists>s3. redoN 2 s2 = ([True, True], s3) \<and> elements s3 = ?es)"
    unfolding l e by simp
  from p2 have q2: "\<exists>s2 c2. undoN 51 (addAll ?fs ?s0) ?c0 = (replicate 50 True @ [False], s2, c2)
          \<and> elements s2 = [Obj 0 (Marker ''#FF0000'' 0 0 12 0)]"
    unfolding t e unfolding l by simp
  from h1 h2 q1 q2 show ?thesis by blast
qed

subsection \<open>The history cap\<close>

lemma historyTotal_addElement:
  "historyTotal s \<le> maxHistory \<Longrightarrow> historyTotal (addElement e s) \<le> maxHistory"
  by (auto simp add: historyTotal_def addElement_def Let_def maxHistory_def)

lemma historyTotal_undo: "historyTotal (fst (snd (undo s c))) = historyTotal s"
  by (cases "undoStack s" rule: rev_cases)
     (auto simp add: historyTotal_def undo_def Let_def split: action.splits)

lemma historyTotal_redo: "historyTotal (snd (redo s)) = historyTotal s"
  by (cases "redoStack s" rule: rev_cases)
     (auto simp add: historyTotal_def redo_def Let_def split: action.splits)

lemma historyTotal_clear: "historyTotal (clear s) = 0"
  by (simp add: historyTotal_def clear_def)

lemma historyTotal_applyOp:
  assumes "historyTotal (fst st) \<le> maxHistory" and "\<forall>pos. op \<noteq> OpErase pos"
  shows "historyTotal (fst (applyOp st op)) \<le> maxHistory"
  using assms
  by (cases st; cases op)
     (simp_all add: historyTotal_addElement historyTotal_undo historyTotal_redo
        historyTotal_clear)

lemma history_capped_without_eraser:
  assumes "historyTotal (fst st) \<le> maxHistory" and "\<forall>op \<in> set ops. \<forall>pos. op \<noteq> OpErase pos"
  shows "length (undoStack (fst (runOps st ops))) \<le> maxHistory
       \<and> length (redoStack (fst (runOps st ops))) \<le> maxHistory"
proof -
  have "historyTotal (fst (runOps st ops)) \<le> maxHistory"
    using assms unfolding runOps_def
    by (induction ops arbitrary: st) (simp_all add: historyTotal_applyOp)
  then show ?thesis by (simp add: historyTotal_def)
qed

lemma indexOf_mem: "e \<in> set xs \<Longrightarrow> 0 \<le> indexOf xs e"
  by (induction xs) (auto simp add: Let_def)

lemma find_mem: "find P xs = Some x \<Longrightarrow> x \<in> set xs"
  by (induction xs) (auto split: if_splits)

lemma handleEraser_hit:
  assumes "findElementAt pos s = Some e"
  shows "undoStack (handleEraser pos s) = undoStack s @ [Remove e (indexOf (elements s) e)]"
proof -
  from assms have "e \<in> set (rev (elements s))"
    unfolding findElementAt_def by (rule find_mem)
  then have "e \<in> set (elements s)" by simp
  then have "0 \<le> indexOf (elements s) e" by (rule indexOf_mem)
  with assms show ?thesis by (simp add: handleEraser_def Let_def)
qed

lemma runOps_append: "runOps st (xs @ ys) = runOps (runOps st xs) ys"
  by (simp add: runOps_def)

lemma runOps_adds: "runOps (s, c) (map OpAdd es) = (addAll es s, c)"
  by (induction es arbitrary: s) (simp_all add: runOps_def addAll_def)

text \<open>
  C7, on the eraser. \<open>addElement\<close> evicts the oldest undo entry at the cap
  (\<open>history_capped_without_eraser\<close>: without eraser clicks both stacks stay within 50),
  \<open>handleEraser\<close> pushes its \<open>remove\<close> entry without looking at the cap: after 50 markers
  added to a new canvas, one eraser click on the topmost marker leaves 51 undo entries.
\<close>

theorem eraser_exceeds_history_cap:
  "length (undoStack (fst (runOps (DrawingCanvas_new 1400 800, \<lparr> count = 0, availableNumbers = None \<rparr>)
      (map (\<lambda>i. OpAdd (Obj i (Marker ''#FF0000'' 0 0 12 0))) [0..<50] @ [OpErase (0, 0)])))) = 51"
proof -
  let ?s0 = "DrawingCanvas_new 1400 800"
  let ?f = "\<lambda>i. Obj i (Marker ''#FF0000'' 0 0 12 0)"
  let ?s1 = "addAll (map ?f [0..<50]) ?s0"
  have u: "[0..<50] = [0..<49] @ [49::nat]"
    using upt_Suc_append [of 0 49] by simp
  have el: "elements ?s1 = map ?f [0..<49] @ [?f 49]"
    by (simp add: elements_addAll DrawingCanvas_new_def u)
  have "findElementAt (0, 0) ?s1 = Some (?f 49)"
    unfolding findElementAt_def el by (simp add: hypot_def)
  then have "undoStack (handleEraser (0, 0) ?s1)
      = undoStack ?s1 @ [Remove (?f 49) (indexOf (elements ?s1) (?f 49))]"
    by (rule handleEraser_hit)
  moreover have "length (undoStack ?s1) = 50"
    using undoStack_addAll_capped [of ?s0 "map ?f [0..<50]"]
    by (simp add: DrawingCanvas_new_def maxHistory_def)
  ultimately have "length (undoStack (handleEraser (0, 0) ?s1)) = 51" by simp
  moreover have "map (\<lambda>i. OpAdd (?f i)) [0..<50] = map OpAdd (map ?f [0..<50])" by simp
  ultimately show ?thesis
    by (simp only: runOps_append runOps_adds) (simp add: runOps_def)
qed

subsection \<open>Cancelling a termination\<close>

text \<open>
  When the first-click element is still the last element of the list, \<open>setTool\<close>
  removes it, recycles its number, returns the two-click state to idle and ends any
  drawing in progress.
\<close>

lemma setTool_cancels_last_first_click:
  assumes "terminationState s = WaitingForSecondClick firstPoint num color"
    and "elements s = es @ [Obj r (Termination col x y label num isFirst ts)]"
  shows "setTool tool s c =
     (s\<lparr> isDrawing := False, points := (if isDrawing s then [] else points s),
          activeElement := (if isDrawing s then None else activeElement s),
          textInput := False, elements := es, terminationState := Idle,
          currentTool := tool, hoverElement := None \<rparr>,
      recycleTerminationNumber num c)"
  using assms
  by (simp add: setTool_def cancelCurrentOperation_def cancelTermination_def Let_def)

text \<open>
  C6, where it fails. With the termination tool selected the user clicks once on the
  Wheeler canvas (first click of termination 1), then places termination 2 on the
  cross-section with two clicks, whose projection appends a \<open>terminationLine\<close> to the
  Wheeler canvas, then switches to the line tool. The Wheeler canvas was awaiting its
  second click; \<open>cancelTermination\<close> looks at the last element only, finds the
  projected line, and removes nothing: the first-click element of termination 1 stays
  on the Wheeler canvas and number 1 is not returned to the pool.
\<close>

theorem cancel_leaves_orphaned_first_click:
  "(case wheelerCanvas (appRun (initializeCanvases 1400 800 1400 1200)
        [SetTool ''termination'',
         TerminationClick wheeler (100, 100) 1000,
         TerminationClick crossSection (200, 300) 2000,
         TerminationClick crossSection (400, 300) 3000]) of
      None \<Rightarrow> False
    | Some w \<Rightarrow> terminationState w = WaitingForSecondClick (100, 100) 1 ''#FF0000'')
   \<and> (case wheelerCanvas (appRun (initializeCanvases 1400 800 1400 1200)
        [SetTool ''termination'',
         TerminationClick wheeler (100, 100) 1000,
         TerminationClick crossSection (200, 300) 2000,
         TerminationClick crossSection (400, 300) 3000,
         SetTool ''line'']) of
        None \<Rightarrow> False
      | Some w \<Rightarrow>
          terminationState w = Idle
          \<and> map (\<lambda>e. el_type (val e)) (elements w) = [''termination'', ''terminationLine'']
          \<and> hd (elements w) = Obj 0 (Termination ''#FF0000'' 100 100 ''1'' 1 True 1000))
   \<and> availableNumbers (terminationCounter (appRun (initializeCanvases 1400 800 1400 1200)
        [SetTool ''termination'',
         TerminationClick wheeler (100, 100) 1000,
         TerminationClick crossSection (200, 300) 2000,
         TerminationClick crossSection (400, 300) 3000,
         SetTool ''line''])) = Some []"
  by (simp add: appRun_def clickTermination_def getCanvas_def setCanvas_def
      placeTermination_def initializeCanvases_def DrawingCanvas_new_def
      getNextTerminationNumber_def Let_def numStr_1_2 handleTerminationPlaced_def
      addElement_def maxHistory_def app_setTool_def setTool_def cancelCurrentOperation_def
      cancelTermination_def padding_left_def padding_right_def padding_top_def
      padding_bottom_def)

section \<open>Termination numbers on a canvas\<close>

lemma pointNumbers_append [simp]:
  "pointNumbers f (xs @ ys) = pointNumbers f xs @ pointNumbers f ys"
  by (induction f xs rule: pointNumbers.induct) simp_all

lemma terminationNumbers_append [simp]:
  "terminationNumbers (xs @ ys) = terminationNumbers xs @ terminationNumbers ys"
  by (induction xs rule: terminationNumbers.induct) simp_all

lemma counterInv_getNext:
  assumes "counterInv c used" and "getNextTerminationNumber c = (v, c1)"
  shows "v \<notin> used \<and> counterInv c1 (insert v used)"
proof (cases "poolOf c = []")
  case True
  then have "availableNumbers c = None \<or> availableNumbers c = Some []"
    by (simp add: poolOf_def split: option.splits)
  from getNext_empty [OF this] assms(2)
  have v: "v = count c + 1"
    and c1: "c1 = c\<lparr> count := count c + 1, availableNumbers := Some [] \<rparr>"
    by simp_all
  from assms(1) have "\<forall>n \<in> used. n \<le> count c" by (simp add: counterInv_def)
  then have "v \<notin> used" using v by auto
  moreover have "counterInv c1 (insert v used)"
    using assms(1) unfolding counterInv_def poolOf_def c1 v by auto
  ultimately show ?thesis by simp
next
  case False
  then obtain pool where p: "availableNumbers c = Some pool" "pool \<noteq> []"
    by (auto simp add: poolOf_def split: option.splits)
  from getNext_nonempty [OF p] assms(2)
  have v: "v = Min (set pool)"
    and c1: "c1 = c\<lparr> availableNumbers := Some (remove1 (Min (set pool)) (sort pool)) \<rparr>"
    by simp_all
  have vin: "v \<in> set pool" unfolding v using p(2) by (intro Min_in) simp_all
  from assms(1) p(1) have inv: "distinct pool" "set pool \<inter> used = {}"
    "\<forall>q \<in> set pool. q \<le> count c" "\<forall>n \<in> used. n \<le> count c"
    by (simp_all add: counterInv_def poolOf_def)
  have "v \<notin> used" using vin inv(2) by auto
  moreover have "counterInv c1 (insert v used)"
    using inv vin unfolding counterInv_def poolOf_def c1 v [symmetric]
    by (auto simp add: distinct_remove1)
  ultimately show ?thesis by simp
qed

lemma counterInv_recycle:
  assumes "counterInv c used" and "n \<in> used" and "used' \<subseteq> used - {n}"
  shows "counterInv (recycleTerminationNumber n c) used'"
  using assms unfolding counterInv_def poolOf_def recycleTerminationNumber_def Let_def
  by (auto split: option.splits)

lemma counterInv_mono: "counterInv c used \<Longrightarrow> used' \<subseteq> used \<Longrightarrow> counterInv c used'"
  unfolding counterInv_def by blast


lemma canvasInv_cong:
  "elements s' = elements s \<Longrightarrow> terminationState s' = terminationState s \<Longrightarrow>
     canvasInv s' = canvasInv s"
  by (simp add: canvasInv_def split: terminationState.splits)

lemma placeTermination_inv:
  assumes "canvasInv s"
    and "counterInv c (set (pointNumbers True (elements s)) \<union> other)"
    and "set (pointNumbers True (elements s)) \<inter> other = {}"
    and "placeTermination pos now r s c = (s', c', payload)"
  shows "canvasInv s'
       \<and> counterInv c' (set (pointNumbers True (elements s')) \<union> other)
       \<and> set (pointNumbers True (elements s')) \<inter> other = {}"
proof (cases "terminationState s")
  case Idle
  obtain v c1 where g: "getNextTerminationNumber c = (v, c1)"
    by (cases "getNextTerminationNumber c") auto
  from counterInv_getNext [OF assms(2) g]
  have v: "v \<notin> set (pointNumbers True (elements s))" "v \<notin> other"
    and c1: "counterInv c1 (insert v (set (pointNumbers True (elements s)) \<union> other))"
    by auto
  from assms(4) Idle g
  have s': "elements s' = elements s @ [Obj r (Termination (currentColor s) (fst pos) (snd pos)
                                                (numStr v) v True now)]"
    and t': "terminationState s' = WaitingForSecondClick (fst pos, snd pos) v (currentColor s)"
    and c': "c' = c1"
    by (auto simp add: placeTermination_first)
  have "canvasInv s'"
    using assms(1) v(1) unfolding canvasInv_def s' t' by auto
  moreover have "counterInv c' (set (pointNumbers True (elements s')) \<union> other)"
    using c1 unfolding s' c' by simp
  moreover have "set (pointNumbers True (elements s')) \<inter> other = {}"
    using assms(3) v(2) unfolding s' by simp
  ultimately show ?thesis by simp
next
  case (WaitingForSecondClick firstPoint num color)
  from assms(4) WaitingForSecondClick
  have s': "elements s' = elements s @ [Obj r (Termination color (fst pos) (snd pos)
                                                (numStr num) num False now)]"
    and t': "terminationState s' = Idle" and c': "c' = c"
    by (auto simp add: placeTermination_def Let_def)
  have "canvasInv s'"
    using assms(1) WaitingForSecondClick unfolding canvasInv_def s' t' by auto
  then show ?thesis
    using assms(2,3) unfolding s' c' by simp
qed

lemma cancelTermination_inv:
  assumes "canvasInv s"
    and "counterInv c (set (pointNumbers True (elements s)) \<union> other)"
    and "set (pointNumbers True (elements s)) \<inter> other = {}"
    and "cancelTermination s c = (s', c')"
  shows "canvasInv s'
       \<and> counterInv c' (set (pointNumbers True (elements s')) \<union> other)
       \<and> set (pointNumbers True (elements s')) \<inter> other = {}"
proof (cases "terminationState s")
  case Idle
  with assms show ?thesis by (simp add: cancelTermination_def)
next
  case (WaitingForSecondClick firstPoint num color)
  from assms(1) WaitingForSecondClick
  have num: "num \<in> set (pointNumbers True (elements s))"
    "num \<notin> set (pointNumbers False (elements s))"
    by (simp_all add: canvasInv_def)
  then have ne: "elements s \<noteq> []" by auto
  then obtain es x where el: "elements s = es @ [x]"
    by (cases "elements s" rule: rev_cases) auto
  obtain rx vx where x: "x = Obj rx vx" by (cases x) auto
  show ?thesis
  proof (cases "\<exists>col px py lab isFirst ts. vx = Termination col px py lab num isFirst ts")
    case True
    then obtain col px py lab isFirst ts where vx: "vx = Termination col px py lab num isFirst ts"
      by blast
    have first: "isFirst" using num(2) unfolding el x vx by (cases isFirst) simp_all
    from assms(4) WaitingForSecondClick el x vx
    have s': "elements s' = es" and t': "terminationState s' = Idle"
      and c': "c' = recycleTerminationNumber num c"
      by (auto simp add: cancelTermination_def Let_def)
    have f: "pointNumbers True (elements s) = pointNumbers True es @ [num]"
      "pointNumbers False (elements s) = pointNumbers False es"
      unfolding el x vx using first by simp_all
    have "canvasInv s'"
      using assms(1) num(2) unfolding canvasInv_def s' t' f by auto
    moreover have "num \<notin> set (pointNumbers True es)"
      using assms(1) unfolding canvasInv_def f by auto
    moreover have "num \<notin> other" using assms(3) num(1) by auto
    ultimately show ?thesis
      using assms(2,3) unfolding s' c' f
      by (auto intro!: counterInv_recycle [where used = "set (pointNumbers True es @ [num]) \<union> other"])
  next
    case False
    from assms(4) WaitingForSecondClick el x False
    have s': "elements s' = elements s" and t': "terminationState s' = Idle" and c': "c' = c"
      by (auto simp add: cancelTermination_def Let_def split: element.splits)
    have "canvasInv s'"
      using assms(1) unfolding canvasInv_def s' t' by simp
    then show ?thesis using assms(2,3) unfolding s' c' by simp
  qed
qed

lemma setTool_inv:
  assumes "canvasInv s"
    and "counterInv c (set (pointNumbers True (elements s)) \<union> other)"
    and "set (pointNumbers True (elements s)) \<inter> other = {}"
    and "setTool tool s c = (s', c')"
  shows "canvasInv s'
       \<and> counterInv c' (set (pointNumbers True (elements s')) \<union> other)
       \<and> set (pointNumbers True (elements s')) \<inter> other = {}"
proof -
  let ?s1 = "if isDrawing s
             then s\<lparr> isDrawing := False, points := [], activeElement := None \<rparr> else s"
  let ?s2 = "if textInput ?s1 then ?s1\<lparr> textInput := False \<rparr> else ?s1"
  obtain s1 c1 where c: "cancelTermination ?s2 c = (s1, c1)"
    by (cases "cancelTermination ?s2 c") auto
  have e: "elements ?s2 = elements s" "terminationState ?s2 = terminationState s" by simp_all
  have cc: "cancelCurrentOperation s c = (s1, c1)"
    using c by (simp add: cancelCurrentOperation_def Let_def)
  have "canvasInv ?s2" using assms(1) canvasInv_cong [OF e] by simp
  from cancelTermination_inv [OF this _ _ c, of other] assms(2,3)
  have i: "canvasInv s1 \<and> counterInv c1 (set (pointNumbers True (elements s1)) \<union> other)
       \<and> set (pointNumbers True (elements s1)) \<inter> other = {}"
    unfolding e by simp
  from assms(4) cc have s': "s' = s1\<lparr> currentTool := tool, hoverElement := None \<rparr>"
    and c': "c' = c1"
    by (simp_all add: setTool_def)
  have "canvasInv s' = canvasInv s1"
    by (rule canvasInv_cong) (simp_all add: s')
  moreover have "elements s' = elements s1" by (simp add: s')
  ultimately show ?thesis using i c' by simp
qed


lemma appInv_init: "appInv (initializeCanvases a b c d)"
  by (simp add: appInv_def initializeCanvases_def DrawingCanvas_new_def canvasInv_def
      counterInv_def poolOf_def)

lemma canvasInv_add_line:
  "canvasInv (addElement (Obj r (TerminationLine col x1 x2 y lab n lw ts)) s) = canvasInv s"
  by (simp add: canvasInv_def split: terminationState.splits)

lemma appInv_click:
  assumes "appInv app"
  shows "appInv (clickTermination name pos now app)"
proof -
  from assms obtain cs wh where a: "crossSectionCanvas app = Some cs" "wheelerCanvas app = Some wh"
    "canvasInv cs" "canvasInv wh"
    "set (pointNumbers True (elements cs)) \<inter> set (pointNumbers True (elements wh)) = {}"
    "counterInv (terminationCounter app)
       (set (pointNumbers True (elements cs)) \<union> set (pointNumbers True (elements wh)))"
    unfolding appInv_def by blast
  show ?thesis
  proof (cases name)
    case crossSection
    obtain s1 c1 payload where p:
      "placeTermination pos now (nextRef app) cs (terminationCounter app) = (s1, c1, payload)"
      by (cases "placeTermination pos now (nextRef app) cs (terminationCounter app)") auto
    from placeTermination_inv [OF a(3) a(6) a(5) p]
    have i: "canvasInv s1"
      "counterInv c1 (set (pointNumbers True (elements s1)) \<union> set (pointNumbers True (elements wh)))"
      "set (pointNumbers True (elements s1)) \<inter> set (pointNumbers True (elements wh)) = {}"
      by simp_all
    show ?thesis
    proof (cases payload)
      case None
      with crossSection a p i show ?thesis
        by (simp add: clickTermination_def getCanvas_def setCanvas_def appInv_def)
    next
      case (Some data)
      with crossSection a p i show ?thesis
        by (simp add: clickTermination_def getCanvas_def setCanvas_def appInv_def
            handleTerminationPlaced_def Let_def canvasInv_add_line)
    qed
  next
    case wheeler
    obtain s1 c1 payload where p:
      "placeTermination pos now (nextRef app) wh (terminationCounter app) = (s1, c1, payload)"
      by (cases "placeTermination pos now (nextRef app) wh (terminationCounter app)") auto
    from a(5,6) have a': "set (pointNumbers True (elements wh)) \<inter> set (pointNumbers True (elements cs)) = {}"
      "counterInv (terminationCounter app)
         (set (pointNumbers True (elements wh)) \<union> set (pointNumbers True (elements cs)))"
      by (simp_all add: Int_commute Un_commute)
    from placeTermination_inv [OF a(4) a'(2) a'(1) p]
    have i: "canvasInv s1"
      "counterInv c1 (set (pointNumbers True (elements cs)) \<union> set (pointNumbers True (elements s1)))"
      "set (pointNumbers True (elements cs)) \<inter> set (pointNumbers True (elements s1)) = {}"
      by (simp_all add: Int_commute Un_commute)
    with wheeler a p show ?thesis
      by (cases payload)
         (simp_all add: clickTermination_def getCanvas_def setCanvas_def appInv_def)
  qed
qed

lemma appInv_setTool:
  assumes "appInv app"
  shows "appInv (app_setTool tool app)"
proof -
  from assms obtain cs wh where a: "crossSectionCanvas app = Some cs" "wheelerCanvas app = Some wh"
    "canvasInv cs" "canvasInv wh"
    "set (pointNumbers True (elements cs)) \<inter> set (pointNumbers True (elements wh)) = {}"
    "counterInv (terminationCounter app)
       (set (pointNumbers True (elements cs)) \<union> set (pointNumbers True (elements wh)))"
    unfolding appInv_def by blast
  obtain cs1 c1 where s1: "setTool tool cs (terminationCounter app) = (cs1, c1)"
    by (cases "setTool tool cs (terminationCounter app)") auto
  from setTool_inv [OF a(3) a(6) a(5) s1]
  have i: "canvasInv cs1"
    "counterInv c1 (set (pointNumbers True (elements wh)) \<union> set (pointNumbers True (elements cs1)))"
    "set (pointNumbers True (elements wh)) \<inter> set (pointNumbers True (elements cs1)) = {}"
    by (simp_all add: Int_commute Un_commute)
  obtain wh1 c2 where s2: "setTool tool wh c1 = (wh1, c2)"
    by (cases "setTool tool wh c1") auto
  from setTool_inv [OF a(4) i(2) i(3) s2]
  have j: "canvasInv wh1"
    "counterInv c2 (set (pointNumbers True (elements cs1)) \<union> set (pointNumbers True (elements wh1)))"
    "set (pointNumbers True (elements cs1)) \<inter> set (pointNumbers True (elements wh1)) = {}"
    by (simp_all add: Int_commute Un_commute)
  show ?thesis
    using a(1,2) s1 s2 i(1) j
    by (simp add: app_setTool_def appInv_def Let_def)
qed

lemma appInv_run: "appInv app \<Longrightarrow> appInv (appRun app evs)"
  unfolding appRun_def
proof (induction evs arbitrary: app)
  case Nil
  then show ?case by simp
next
  case (Cons ev evs)
  have "appInv (appStep app ev)"
    using Cons.prems by (cases ev) (simp_all add: appInv_click appInv_setTool)
  then show ?case using Cons.IH by simp
qed

lemma terminationNumbers_pair:
  "terminationNumbers [Obj r1 (Termination c1 x1 y1 l1 n True t1),
                       Obj r2 (Termination c2 x2 y2 l2 n False t2)] = [n, n]"
  by simp

text \<open>
  Both clicks of one termination commit a \<open>termination\<close> element with the number of the
  termination: the number ties the pair together. After the first pair placed on a new
  cross-section canvas its two termination elements both carry number 1.
\<close>

lemma completed_pair_shares_number:
  "case crossSectionCanvas (appRun (initializeCanvases 1400 800 1400 1200)
          [SetTool ''termination'',
           TerminationClick crossSection (200, 300) 1000,
           TerminationClick crossSection (400, 300) 2000]) of
     None \<Rightarrow> False
   | Some s \<Rightarrow> terminationNumbers (elements s) = [1, 1]
              \<and> pointNumbers True (elements s) = [1]
              \<and> pointNumbers False (elements s) = [1]"
  by (simp add: appRun_def clickTermination_def getCanvas_def setCanvas_def
      placeTermination_def initializeCanvases_def DrawingCanvas_new_def
      getNextTerminationNumber_def Let_def numStr_1_2 handleTerminationPlaced_def
      addElement_def maxHistory_def app_setTool_def setTool_def cancelCurrentOperation_def
      cancelTermination_def)

text \<open>
  Placing and cancelling keep the numbers of different terminations apart. In every
  state reached from the initial application state by termination clicks on either
  canvas and tool switches, on each canvas no number is carried by two first-click
  elements nor by two second-click elements, and every second-click element carries
  the number of a first-click element of that canvas: termination elements with the
  same number are the two elements of one pair.
\<close>

lemma placing_keeps_numbers_apart:
  "case getCanvas name (appRun (initializeCanvases csWidth csHeight whWidth whHeight) evs) of
     None \<Rightarrow> False
   | Some s \<Rightarrow>
       distinct (pointNumbers True (elements s)) \<and> distinct (pointNumbers False (elements s))
       \<and> set (pointNumbers False (elements s)) \<subseteq> set (pointNumbers True (elements s))"
proof -
  have "appInv (appRun (initializeCanvases csWidth csHeight whWidth whHeight) evs)"
    by (rule appInv_run) (rule appInv_init)
  then show ?thesis
    by (cases name) (auto simp add: appInv_def getCanvas_def canvasInv_def)
qed

lemma placing_keeps_numbers_apart_example:
  "case getCanvas crossSection (appRun (initializeCanvases 1400 800 1400 1200)
          [SetTool ''termination'',
           TerminationClick crossSection (200, 300) 1000,
           TerminationClick crossSection (400, 300) 2000,
           TerminationClick crossSection (500, 300) 3000]) of
     None \<Rightarrow> False
   | Some s \<Rightarrow> pointNumbers True (elements s) = [1, 2] \<and> pointNumbers False (elements s) = [1]"
  by (simp add: appRun_def clickTermination_def getCanvas_def setCanvas_def
      placeTermination_def initializeCanvases_def DrawingCanvas_new_def
      getNextTerminationNumber_def Let_def numStr_1_2 handleTerminationPlaced_def
      addElement_def maxHistory_def app_setTool_def setTool_def cancelCurrentOperation_def
      cancelTermination_def)

text \<open>
  C9 fails on undo. On a new cross-section canvas the user picks the termination tool,
  clicks twice (termination 1 is complete: elements 1-first and 1-second), presses undo
  once, and clicks again. \<open>undo\<close> removes the second-click element and recycles its
  number 1 although the first-click element of termination 1 is still on the canvas;
  the next click starts a new termination and draws 1 from the pool. The canvas then
  holds two termination elements with number 1 that are the first clicks of two
  different terminations, at (200, 300) and at (600, 500).
\<close>

theorem undo_of_second_click_reissues_number_in_use:
  "let app2 = appRun (initializeCanvases 1400 800 1400 1200)
                [SetTool ''termination'',
                 TerminationClick crossSection (200, 300) 1000,
                 TerminationClick crossSection (400, 300) 2000];
       app3 = handleUndo app2;
       app4 = clickTermination crossSection (600, 500) 3000 app3
   in (case crossSectionCanvas app3 of
         None \<Rightarrow> False
       | Some s \<Rightarrow>
           map val (elements s) = [Termination ''#FF0000'' 200 300 ''1'' 1 True 1000])
      \<and> availableNumbers (terminationCounter app3) = Some [1]
      \<and> (case crossSectionCanvas app4 of
            None \<Rightarrow> False
          | Some s \<Rightarrow>
              map val (elements s) =
                [Termination ''#FF0000'' 200 300 ''1'' 1 True 1000,
                 Termination ''#FF0000'' 600 500 ''1'' 1 True 3000]
              \<and> terminationNumbers (elements s) = [1, 1]
              \<and> \<not> distinct (pointNumbers True (elements s)))"
  unfolding Let_def
  by (simp add: appRun_def clickTermination_def getCanvas_def setCanvas_def
      placeTermination_def initializeCanvases_def DrawingCanvas_new_def
      getNextTerminationNumber_def Let_def numStr_1_2 handleTerminationPlaced_def
      addElement_def maxHistory_def app_setTool_def setTool_def cancelCurrentOperation_def
      cancelTermination_def handleUndo_def undoOn_def undo_def splice_def
      recycleTerminationNumber_def)

end
